theory Spec2Isabelle
  imports Main "HOL-Library.Sublist" "HOL-Library.AList"
begin

section \<open>Python helpers shared by the tool servers\<close>

text \<open>
  A Python string is a list of code points, \<open>ustring\<close>; a string literal of the source
  is written \<open>ucode ''...''\<close>. Where a string is only compared, cut at a separator or
  passed on (method names, commands, paths, names of databases), \<^typ>\<open>string\<close> stands
  for it, its characters being the code points below 256.
\<close>

type_synonym ustring = "nat list"

definition ucode :: "string \<Rightarrow> ustring" where
  "ucode s = map of_char s"

text \<open>
  The code points that \<^verbatim>\<open>str.strip()\<close> removes: U+0009 to U+000D, U+001C to U+0020,
  U+0085, U+00A0, U+1680, U+2000 to U+200A, U+2028, U+2029, U+202F, U+205F and U+3000.
\<close>

definition is_space :: "nat \<Rightarrow> bool" where
  "is_space c =
     ((9 \<le> c \<and> c \<le> 13) \<or> (28 \<le> c \<and> c \<le> 32) \<or> c = 133 \<or> c = 160 \<or> c = 5760 \<or>
      (8192 \<le> c \<and> c \<le> 8202) \<or> c = 8232 \<or> c = 8233 \<or> c = 8239 \<or> c = 8287 \<or>
      c = 12288)"

definition py_strip :: "ustring \<Rightarrow> ustring" where
  "py_strip s = rev (dropWhile is_space (rev (dropWhile is_space s)))"

text \<open>
  \<^verbatim>\<open>str.upper()\<close> follows the Unicode tables of the interpreter. The model does not
  copy them: every function that upper-cases takes \<^verbatim>\<open>str.upper\<close> as the parameter
  \<open>upper\<close>, and what is proved holds for every such function.
\<close>

type_synonym upper_fn = "ustring \<Rightarrow> ustring"

text \<open>\<^verbatim>\<open>s.startswith(p)\<close> is \<^term>\<open>prefix p s\<close>; \<^verbatim>\<open>p in s\<close> on strings is \<open>contains p s\<close>.\<close>

fun contains :: "'a list \<Rightarrow> 'a list \<Rightarrow> bool" where
  "contains p [] = (p = [])"
| "contains p (c # s) = (prefix p (c # s) \<or> contains p s)"

text \<open>\<^verbatim>\<open>sep.join(xs)\<close>.\<close>

fun join :: "'a list \<Rightarrow> 'a list list \<Rightarrow> 'a list" where
  "join sep [] = []"
| "join sep [x] = x"
| "join sep (x # y # ys) = x @ sep @ join sep (y # ys)"

text \<open>
  The Python slice \<^verbatim>\<open>xs[-n:]\<close> for a non-negative \<open>n\<close>: the last \<open>n\<close> elements, and the
  whole list when \<open>n = 0\<close> (because \<^verbatim>\<open>-0 == 0\<close>) or when the list is shorter than \<open>n\<close>.
\<close>

definition py_last :: "nat \<Rightarrow> 'a list \<Rightarrow> 'a list" where
  "py_last n xs = (if n = 0 then xs else drop (length xs - n) xs)"

text \<open>
  Dictionaries keep the order of insertion: \<^verbatim>\<open>d.update(other)\<close>, and \<^verbatim>\<open>dict(pairs)\<close>,
  in which a key that comes again keeps its place and takes the later value.
\<close>

definition dict_update :: "('k \<times> 'v) list \<Rightarrow> ('k \<times> 'v) list \<Rightarrow> ('k \<times> 'v) list" where
  "dict_update d other = fold (\<lambda>(k, v). AList.update k v) other d"

definition py_dict :: "('k \<times> 'v) list \<Rightarrow> ('k \<times> 'v) list" where
  "py_dict pairs = dict_update [] pairs"

text \<open>
  A call either raises (\<open>Inl\<close>) or returns (\<open>Inr\<close>), and in both cases leaves a state
  behind: the mutations made before a \<^verbatim>\<open>raise\<close> stay.
\<close>

type_synonym ('e, 'a, 's) call = "'s \<Rightarrow> ('e + 'a) \<times> 's"

definition raise :: "'e \<Rightarrow> ('e, 'a, 's) call" where
  "raise e s = (Inl e, s)"

definition return :: "'a \<Rightarrow> ('e, 'a, 's) call" where
  "return a s = (Inr a, s)"

definition andthen :: "('e, 'a, 's) call \<Rightarrow> ('a \<Rightarrow> ('e, 'b, 's) call) \<Rightarrow> ('e, 'b, 's) call" where
  "andthen m f s = (case m s of (Inl e, s') \<Rightarrow> (Inl e, s') | (Inr a, s') \<Rightarrow> f a s')"

section \<open>Database tool server (database\_server.py)\<close>

text \<open>
  The exceptions the two entry points raise:
  \<^item> \<open>QueryRequired\<close>: \<^verbatim>\<open>ValueError("Query parameter is required")\<close>;
  \<^item> \<open>StatementRequired\<close>: \<^verbatim>\<open>ValueError("Statement parameter is required")\<close>;
  \<^item> \<open>OperationNotAllowed ops\<close>: \<^verbatim>\<open>ValueError(f"Operation not allowed. Allowed operations: {ops}")\<close>;
  \<^item> \<open>DangerousPattern p\<close>: \<^verbatim>\<open>ValueError(f"Dangerous SQL pattern detected: {p}")\<close>;
  \<^item> \<open>NotConnected db\<close>: \<^verbatim>\<open>ValueError(f"Database not connected: {db}")\<close>;
  \<^item> \<open>EngineError\<close>: an \<^verbatim>\<open>sqlite3.Error\<close> raised by \<^verbatim>\<open>cursor.execute\<close>;
  \<^item> \<open>NoDescription\<close>: the \<^verbatim>\<open>TypeError\<close> of iterating \<^verbatim>\<open>cursor.description\<close> when it is
    \<^verbatim>\<open>None\<close>;
  \<^item> \<open>LimitOverflow\<close>: the \<^verbatim>\<open>OverflowError\<close> of \<^verbatim>\<open>fetchmany\<close> for a size that is not a
    C \<^verbatim>\<open>int\<close>.
\<close>

datatype db_error =
    QueryRequired
  | StatementRequired
  | OperationNotAllowed "ustring list"
  | DangerousPattern ustring
  | NotConnected string
  | EngineError
  | NoDescription
  | LimitOverflow

text \<open>
  An open \<^verbatim>\<open>sqlite3.Connection\<close>: its backing path, the statements handed to
  \<^verbatim>\<open>cursor.execute\<close> so far (oldest first) and the number of commits.
\<close>

record connection =
  c_path :: string
  c_executed :: "ustring list"
  c_commits :: nat

record query_entry =
  q_query :: ustring
  q_database :: string
  q_executed_at :: string
  q_type :: string

record database_server =
  database_path :: string
  allowed_operations :: "ustring list"
  connections :: "(string \<times> connection) list"
  query_history :: "query_entry list"
  db_max_history :: nat

definition default_operations :: "ustring list" where
  "default_operations = map ucode [''SELECT'', ''INSERT'', ''UPDATE'', ''DELETE'']"

text \<open>\<^verbatim>\<open>DatabaseMCPServer.__init__\<close>; an absent or empty argument takes the default.\<close>

definition database_init :: "string option \<Rightarrow> ustring list option \<Rightarrow> database_server" where
  "database_init path_arg operations_arg =
     \<lparr> database_path = (case path_arg of None \<Rightarrow> ''qwen_desktop.db''
                          | Some p \<Rightarrow> if p = [] then ''qwen_desktop.db'' else p),
       allowed_operations = (case operations_arg of None \<Rightarrow> default_operations
                          | Some ops \<Rightarrow> if ops = [] then default_operations else ops),
       connections = [],
       query_history = [],
       db_max_history = 100 \<rparr>"

text \<open>
  The loop \<^verbatim>\<open>for op in self.allowed_operations: if q.startswith(op): operation = op; break\<close>.
\<close>

fun first_operation :: "ustring list \<Rightarrow> ustring \<Rightarrow> ustring option" where
  "first_operation [] q = None"
| "first_operation (op # ops) q = (if prefix op q then Some op else first_operation ops q)"

text \<open>
  The loop \<^verbatim>\<open>for pattern in dangerous_patterns: if pattern in q: raise ...\<close>: the first
  pattern found, if any.
\<close>

fun first_pattern :: "'a list list \<Rightarrow> 'a list \<Rightarrow> 'a list option" where
  "first_pattern [] q = None"
| "first_pattern (p # ps) q = (if contains p q then Some p else first_pattern ps q)"

definition query_dangerous_patterns :: "ustring list" where
  "query_dangerous_patterns =
     map ucode
       [''DROP TABLE'', ''DROP DATABASE'', ''DELETE FROM'', ''TRUNCATE'',
        ''ALTER TABLE'', ''CREATE INDEX'', ''DROP INDEX'']"

definition statement_dangerous_patterns :: "ustring list" where
  "statement_dangerous_patterns =
     map ucode
       [''DROP TABLE'', ''DROP DATABASE'', ''TRUNCATE'',
        ''ALTER TABLE'', ''CREATE INDEX'', ''DROP INDEX'']"

text \<open>
  \<^verbatim>\<open>_validate_query\<close> and \<^verbatim>\<open>_validate_statement\<close>. \<^verbatim>\<open>if not operation\<close> also holds
  when the matching allow-list entry is the empty string.
\<close>

definition validate_sql :: "upper_fn \<Rightarrow> ustring list \<Rightarrow> ustring list \<Rightarrow> ustring \<Rightarrow> db_error + unit" where
  "validate_sql upper dangerous_patterns allowed text =
     (let text_upper = py_strip (upper text) in
      case first_operation allowed text_upper of
        None \<Rightarrow> Inl (OperationNotAllowed allowed)
      | Some operation \<Rightarrow>
          if operation = [] then Inl (OperationNotAllowed allowed)
          else (case first_pattern dangerous_patterns text_upper of
                  Some pattern \<Rightarrow> Inl (DangerousPattern pattern)
                | None \<Rightarrow> Inr ()))"

definition validate_query :: "upper_fn \<Rightarrow> database_server \<Rightarrow> ustring \<Rightarrow> db_error + unit" where
  "validate_query upper self query =
     validate_sql upper query_dangerous_patterns (allowed_operations self) query"

definition validate_statement :: "upper_fn \<Rightarrow> database_server \<Rightarrow> ustring \<Rightarrow> db_error + unit" where
  "validate_statement upper self statement =
     validate_sql upper statement_dangerous_patterns (allowed_operations self) statement"

text \<open>
  What \<^verbatim>\<open>cursor.execute\<close> does is the engine's business: it is a parameter, from the
  database name and the statement to either an error or the cursor's description, rows,
  \<^verbatim>\<open>rowcount\<close> and \<^verbatim>\<open>lastrowid\<close>.
\<close>

datatype sql_outcome =
    SqlError
  | SqlOk (description: "string list option") (rows: "string list list")
      (rowcount: int) (lastrowid: "int option")

type_synonym engine = "string \<Rightarrow> ustring \<Rightarrow> sql_outcome"

datatype fetched =
    NoRow
  | OneRow "(string \<times> string) list"
  | Rows "(string \<times> string) list list"

record query_result =
  qr_query :: ustring
  qr_database :: string
  qr_fetch_type :: string
  qr_result :: fetched
  qr_row_count :: nat
  qr_columns :: "string list"
  qr_executed_at :: string

record statement_result =
  sr_statement :: ustring
  sr_database :: string
  sr_affected_rows :: int
  sr_last_row_id :: "int option"
  sr_executed_at :: string

datatype db_result = QueryResult query_result | StatementResult statement_result

text \<open>
  \<^verbatim>\<open>DatabaseMCPServer._add_to_history\<close>: the entry's text is
  \<^verbatim>\<open>result.get('query') or result.get('statement')\<close>.
\<close>

definition db_history_item :: "db_result \<Rightarrow> query_entry" where
  "db_history_item result =
     (case result of
        QueryResult r \<Rightarrow>
          \<lparr> q_query = qr_query r, q_database = qr_database r,
            q_executed_at = qr_executed_at r, q_type = ''query'' \<rparr>
      | StatementResult r \<Rightarrow>
          \<lparr> q_query = sr_statement r, q_database = sr_database r,
            q_executed_at = sr_executed_at r, q_type = ''statement'' \<rparr>)"

definition db_add_to_history :: "db_result \<Rightarrow> database_server \<Rightarrow> database_server" where
  "db_add_to_history result self =
     (let appended = query_history self @ [db_history_item result]
      in if length appended > db_max_history self
         then self\<lparr>query_history := py_last (db_max_history self) appended\<rparr>
         else self\<lparr>query_history := appended\<rparr>)"

text \<open>
  Request parameters: a field is \<open>None\<close> when the key is absent from the \<^verbatim>\<open>params\<close>
  dictionary.
\<close>

record query_params =
  p_query :: "ustring option"
  p_database :: "string option"
  p_fetch_type :: "string option"
  p_limit :: "int option"

text \<open>\<^verbatim>\<open>cursor.execute(text)\<close> on the named connection: the statement is recorded as executed.\<close>

definition cursor_execute :: "engine \<Rightarrow> string \<Rightarrow> ustring \<Rightarrow> (db_error, sql_outcome, database_server) call" where
  "cursor_execute eng database text self =
     (case map_of (connections self) database of
        None \<Rightarrow> (Inl (NotConnected database), self)
      | Some c \<Rightarrow>
          (let self' = self\<lparr>connections :=
                 AList.update database (c\<lparr>c_executed := c_executed c @ [text]\<rparr>) (connections self)\<rparr>
           in case eng database text of
                SqlError \<Rightarrow> (Inl EngineError, self')
              | out \<Rightarrow> (Inr out, self')))"

text \<open>\<^verbatim>\<open>[description[0] for description in cursor.description]\<close>.\<close>

definition column_names :: "sql_outcome \<Rightarrow> (db_error, string list, database_server) call" where
  "column_names out =
     (case description out of None \<Rightarrow> raise NoDescription | Some cols \<Rightarrow> return cols)"

text \<open>
  \<^verbatim>\<open>cursor.fetchmany(limit)\<close>: the size is a C \<^verbatim>\<open>int\<close>, and the rows are counted up to
  it, so that a size of zero or less gives all rows.
\<close>

definition fetchmany :: "int \<Rightarrow> sql_outcome \<Rightarrow> (db_error, string list list, database_server) call" where
  "fetchmany limit out =
     (if limit < - 2147483648 \<or> 2147483647 < limit then raise LimitOverflow
      else if limit \<le> 0 then return (rows out)
      else return (take (nat limit) (rows out)))"

text \<open>
  \<^verbatim>\<open>execute_query\<close>. The three fetch modes differ in the rows they take (\<^verbatim>\<open>fetchone\<close>,
  \<^verbatim>\<open>fetchmany(limit)\<close>, \<^verbatim>\<open>fetchall\<close>); with \<^verbatim>\<open>fetchone\<close> the columns are read only for
  a truthy row. A row becomes \<^verbatim>\<open>dict(zip(columns, row))\<close>.
\<close>

definition execute_query :: "upper_fn \<Rightarrow> engine \<Rightarrow> string \<Rightarrow> query_params \<Rightarrow> (db_error, query_result, database_server) call" where
  "execute_query upper eng now params self =
     (let query = p_query params;
          database = (case p_database params of None \<Rightarrow> ''default'' | Some d \<Rightarrow> d);
          fetch_type = (case p_fetch_type params of None \<Rightarrow> ''all'' | Some f \<Rightarrow> f);
          limit = (case p_limit params of None \<Rightarrow> 1000 | Some l \<Rightarrow> l)
      in case query of
           None \<Rightarrow> (Inl QueryRequired, self)
         | Some query \<Rightarrow>
             if query = [] then (Inl QueryRequired, self)
             else (case validate_query upper self query of
                 Inl e \<Rightarrow> (Inl e, self)
               | Inr _ \<Rightarrow>
                   if map_of (connections self) database = None
                   then (Inl (NotConnected database), self)
                   else andthen (cursor_execute eng database query)
                     (\<lambda>out.
                        andthen
                          (if fetch_type = ''one'' then
                             (case rows out of
                                row # _ \<Rightarrow>
                                  if row \<noteq> [] then
                                    andthen (column_names out)
                                      (\<lambda>columns. return (OneRow (py_dict (zip columns row)), columns))
                                  else return (NoRow, [])
                              | [] \<Rightarrow> return (NoRow, []))
                           else if fetch_type = ''many'' then
                             andthen (fetchmany limit out)
                               (\<lambda>results. andthen (column_names out)
                                  (\<lambda>columns. return
                                     (Rows (map (\<lambda>row. py_dict (zip columns row)) results), columns)))
                           else
                             andthen (column_names out)
                               (\<lambda>columns. return
                                  (Rows (map (\<lambda>row. py_dict (zip columns row)) (rows out)), columns)))
                          (\<lambda>(row_data, columns).
                             (let result_data =
                                \<lparr> qr_query = query, qr_database = database,
                                  qr_fetch_type = fetch_type, qr_result = row_data,
                                  qr_row_count =
                                    (case row_data of
                                       Rows rs \<Rightarrow> length rs
                                     | OneRow r \<Rightarrow> (if r \<noteq> [] then 1 else 0)
                                     | NoRow \<Rightarrow> 0),
                                  qr_columns = columns, qr_executed_at = now \<rparr>
                              in (\<lambda>s. (Inr result_data, db_add_to_history (QueryResult result_data) s)))))
                     self))"

record statement_params =
  p_statement :: "ustring option"
  p_stmt_database :: "string option"

text \<open>\<^verbatim>\<open>connection.commit()\<close> on the named connection.\<close>

definition commit :: "string \<Rightarrow> database_server \<Rightarrow> database_server" where
  "commit database self =
     (case map_of (connections self) database of
        None \<Rightarrow> self
      | Some c \<Rightarrow> self\<lparr>connections :=
          AList.update database (c\<lparr>c_commits := Suc (c_commits c)\<rparr>) (connections self)\<rparr>)"

definition execute_statement :: "upper_fn \<Rightarrow> engine \<Rightarrow> string \<Rightarrow> statement_params \<Rightarrow> (db_error, statement_result, database_server) call" where
  "execute_statement upper eng now params self =
     (let statement = p_statement params;
          database = (case p_stmt_database params of None \<Rightarrow> ''default'' | Some d \<Rightarrow> d)
      in case statement of
           None \<Rightarrow> (Inl StatementRequired, self)
         | Some statement \<Rightarrow>
             if statement = [] then (Inl StatementRequired, self)
             else (case validate_statement upper self statement of
                 Inl e \<Rightarrow> (Inl e, self)
               | Inr _ \<Rightarrow>
                   if map_of (connections self) database = None
                   then (Inl (NotConnected database), self)
                   else andthen (cursor_execute eng database statement)
                     (\<lambda>out s.
                        (let s1 = commit database s;
                             result_data =
                               \<lparr> sr_statement = statement, sr_database = database,
                                 sr_affected_rows = rowcount out, sr_last_row_id = lastrowid out,
                                 sr_executed_at = now \<rparr>
                         in (Inr result_data, db_add_to_history (StatementResult result_data) s1)))
                     self))"

section \<open>Terminal tool server (terminal\_server.py)\<close>

text \<open>\<^verbatim>\<open>str(n)\<close> for a non-negative integer.\<close>

fun string_of_nat :: "nat \<Rightarrow> string" where
  "string_of_nat n =
     (if n < 10 then [''0123456789'' ! n]
      else string_of_nat (n div 10) @ [''0123456789'' ! (n mod 10)])"

text \<open>
  A command is a string or, since the code also accepts it, a list of tokens
  (\<^verbatim>\<open>isinstance(command, str)\<close>).
\<close>

datatype command = CmdStr string | CmdList "string list"

text \<open>
  The exceptions of the terminal server:
  \<^item> \<open>CommandRequired\<close>: \<^verbatim>\<open>ValueError("Command parameter is required")\<close>;
  \<^item> \<open>TokenizeError\<close>: the \<^verbatim>\<open>ValueError\<close> of \<^verbatim>\<open>shlex.split\<close> (no closing quotation, no
    escaped character);
  \<^item> \<open>EmptyCommand\<close>: \<^verbatim>\<open>ValueError("Empty command")\<close>;
  \<^item> \<open>CommandNotAllowed c\<close>: \<^verbatim>\<open>ValueError(f"Command not allowed: {c}")\<close>;
  \<^item> \<open>DangerousCommand p\<close>: \<^verbatim>\<open>ValueError(f"Dangerous command pattern detected: {p}")\<close>;
  \<^item> \<open>SpawnFailed\<close>: an exception of \<^verbatim>\<open>asyncio.create_subprocess_exec\<close>;
  \<^item> \<open>CommunicateFailed\<close>: an exception of \<^verbatim>\<open>process.communicate()\<close> other than the timeout;
  \<^item> \<open>ProcessIdRequired\<close>: \<^verbatim>\<open>ValueError("Process ID parameter is required")\<close>;
  \<^item> \<open>ProcessNotFound i\<close>: \<^verbatim>\<open>ValueError(f"Process not found: {i}")\<close>;
  \<^item> \<open>ProcessLookupError\<close>: raised by \<^verbatim>\<open>terminate()\<close> or \<^verbatim>\<open>kill()\<close> on a child that is
    gone.
\<close>

datatype terminal_error =
    CommandRequired
  | TokenizeError
  | EmptyCommand
  | CommandNotAllowed string
  | DangerousCommand string
  | SpawnFailed
  | CommunicateFailed
  | ProcessIdRequired
  | ProcessNotFound string
  | ProcessLookupError

record exec_result =
  r_process_id :: string
  r_command :: command
  r_exit_code :: int
  r_stdout :: string
  r_stderr :: string
  r_success :: bool
  r_executed_at :: string
  r_working_directory :: string
  r_timeout :: nat
  r_timed_out :: bool

record command_entry =
  h_command :: command
  h_exit_code :: int
  h_success :: bool
  h_executed_at :: string
  h_working_directory :: string

text \<open>
  The server object. \<^verbatim>\<open>running_processes\<close> is the dictionary from process id to the
  \<^verbatim>\<open>asyncio\<close> process object, here the handle of a child of the operating system.
\<close>

record terminal_server =
  working_directory :: string
  allowed_commands :: "string list"
  running_processes :: "(string \<times> nat) list"
  command_history :: "command_entry list"
  max_history :: nat

definition default_allowed_commands :: "string list" where
  "default_allowed_commands =
     [''ls'', ''cat'', ''grep'', ''find'', ''pwd'', ''echo'', ''head'', ''tail'',
      ''wc'', ''sort'', ''uniq'', ''cut'', ''awk'', ''sed'', ''tr'', ''diff'',
      ''file'', ''stat'', ''du'', ''df'', ''ps'', ''top'', ''free'', ''uptime'']"

text \<open>
  \<^verbatim>\<open>TerminalMCPServer.__init__\<close>; \<open>cwd\<close> is \<^verbatim>\<open>os.getcwd()\<close>. An absent or empty argument
  takes the default.
\<close>

definition terminal_init :: "string \<Rightarrow> string option \<Rightarrow> string list option \<Rightarrow> terminal_server" where
  "terminal_init cwd directory_arg commands_arg =
     \<lparr> working_directory = (case directory_arg of None \<Rightarrow> cwd
                              | Some d \<Rightarrow> if d = [] then cwd else d),
       allowed_commands = (case commands_arg of None \<Rightarrow> default_allowed_commands
                              | Some cs \<Rightarrow> if cs = [] then default_allowed_commands else cs),
       running_processes = [],
       command_history = [],
       max_history = 100 \<rparr>"

text \<open>
  The children of the operating system, by handle (the position in the list), and the
  calls the server has made on them.
\<close>

datatype child_state = Live | Exited int

datatype os_call =
    Spawn nat "string list" string
  | Terminate nat
  | Kill nat

record terminal_world =
  server :: terminal_server
  children :: "child_state list"
  os_calls :: "os_call list"

text \<open>\<^verbatim>\<open>shlex.split\<close> is a parameter: \<open>None\<close> when it raises \<^verbatim>\<open>ValueError\<close>.\<close>

type_synonym tokenizer = "string \<Rightarrow> string list option"

definition command_parts :: "tokenizer \<Rightarrow> command \<Rightarrow> string list option" where
  "command_parts shlex_split command =
     (case command of CmdStr s \<Rightarrow> shlex_split s | CmdList parts \<Rightarrow> Some parts)"

definition dangerous_patterns :: "string list" where
  "dangerous_patterns =
     [''rm -rf'', ''dd if='', ''> /dev/'', ''| bash'', ''| sh'',
      ''sudo'', ''su'', ''chmod 777'', ''chown root'']"

text \<open>\<^verbatim>\<open>_validate_command\<close>.\<close>

definition validate_command :: "tokenizer \<Rightarrow> terminal_server \<Rightarrow> command \<Rightarrow> terminal_error + unit" where
  "validate_command shlex_split self command =
     (case command_parts shlex_split command of
        None \<Rightarrow> Inl TokenizeError
      | Some [] \<Rightarrow> Inl EmptyCommand
      | Some (base_command # args) \<Rightarrow>
          if base_command \<notin> set (allowed_commands self) then Inl (CommandNotAllowed base_command)
          else (case first_pattern dangerous_patterns (join '' '' (base_command # args)) of
                  Some pattern \<Rightarrow> Inl (DangerousCommand pattern)
                | None \<Rightarrow> Inr ()))"

definition history_item :: "exec_result \<Rightarrow> command_entry" where
  "history_item r =
     \<lparr> h_command = r_command r, h_exit_code = r_exit_code r, h_success = r_success r,
       h_executed_at = r_executed_at r, h_working_directory = r_working_directory r \<rparr>"

text \<open>\<^verbatim>\<open>TerminalMCPServer._add_to_history\<close>.\<close>

definition add_to_history :: "exec_result \<Rightarrow> terminal_server \<Rightarrow> terminal_server" where
  "add_to_history result self =
     (let appended = command_history self @ [history_item result]
      in if length appended > max_history self
         then self\<lparr>command_history := py_last (max_history self) appended\<rparr>
         else self\<lparr>command_history := appended\<rparr>)"

text \<open>
  What the child does is the environment's choice: the spawn fails, or it succeeds and
  then the child ends within the timeout with an exit code and its two outputs, or the
  timeout expires first, or \<^verbatim>\<open>communicate()\<close> raises.
\<close>

datatype communicate_outcome =
    Completes int string string
  | TimesOut
  | CommunicateFails

datatype child_run = SpawnFails | Spawns communicate_outcome

record exec_params =
  p_command :: "command option"
  p_timeout :: "nat option"
  p_working_directory :: "string option"

definition falsy_command :: "command \<Rightarrow> bool" where
  "falsy_command command = (case command of CmdStr s \<Rightarrow> s = [] | CmdList parts \<Rightarrow> parts = [])"

text \<open>\<^verbatim>\<open>len(self.running_processes)\<close>: the number of keys.\<close>

definition process_count :: "terminal_server \<Rightarrow> nat" where
  "process_count self = length (remdups (map fst (running_processes self)))"

text \<open>
  \<^verbatim>\<open>f"proc_{datetime.now().timestamp()}_{len(self.running_processes)}"\<close>; \<open>ts\<close> is the
  text of the timestamp.
\<close>

definition new_process_id :: "string \<Rightarrow> terminal_server \<Rightarrow> string" where
  "new_process_id ts self = ''proc_'' @ ts @ ''_'' @ string_of_nat (process_count self)"

definition register_process :: "string \<Rightarrow> nat \<Rightarrow> terminal_world \<Rightarrow> terminal_world" where
  "register_process process_id h w =
     w\<lparr>server := (server w)\<lparr>running_processes :=
         AList.update process_id h (running_processes (server w))\<rparr>\<rparr>"

text \<open>\<^verbatim>\<open>if process_id in self.running_processes: del self.running_processes[process_id]\<close>.\<close>

definition unregister_process :: "string \<Rightarrow> terminal_world \<Rightarrow> terminal_world" where
  "unregister_process process_id w =
     (if map_of (running_processes (server w)) process_id \<noteq> None
      then w\<lparr>server := (server w)\<lparr>running_processes :=
             AList.delete process_id (running_processes (server w))\<rparr>\<rparr>
      else w)"

text \<open>\<^verbatim>\<open>process.terminate()\<close> and \<^verbatim>\<open>process.kill()\<close>: a signal to a child that is live.\<close>

definition send_signal :: "(nat \<Rightarrow> os_call) \<Rightarrow> nat \<Rightarrow> (terminal_error, unit, terminal_world) call" where
  "send_signal sig h w =
     (if h < length (children w) \<and> children w ! h = Live
      then (Inr (), w\<lparr>os_calls := os_calls w @ [sig h]\<rparr>)
      else (Inl ProcessLookupError, w))"

text \<open>
  \<^verbatim>\<open>execute_command\<close>. The \<^verbatim>\<open>finally\<close> clause of the inner \<^verbatim>\<open>try\<close> runs on every way
  out of it, also on the timeout, before the handler \<^verbatim>\<open>except asyncio.TimeoutError\<close> of the
  outer \<^verbatim>\<open>try\<close>.
\<close>

definition execute_command ::
  "tokenizer \<Rightarrow> child_run \<Rightarrow> string \<Rightarrow> string \<Rightarrow> exec_params \<Rightarrow> (terminal_error, exec_result, terminal_world) call" where
  "execute_command shlex_split run ts now params w =
     (let self = server w;
          timeout = (case p_timeout params of None \<Rightarrow> 30 | Some t \<Rightarrow> t);
          working_dir = (case p_working_directory params of
                           None \<Rightarrow> working_directory self | Some d \<Rightarrow> d)
      in case p_command params of
           None \<Rightarrow> (Inl CommandRequired, w)
         | Some command \<Rightarrow>
             if falsy_command command then (Inl CommandRequired, w)
             else (case validate_command shlex_split self command of
                 Inl e \<Rightarrow> (Inl e, w)
               | Inr _ \<Rightarrow>
                   (case command_parts shlex_split command of
                      None \<Rightarrow> (Inl TokenizeError, w)
                    | Some cmd_parts \<Rightarrow>
                        (let process_id = new_process_id ts self in
                         case run of
                           SpawnFails \<Rightarrow> (Inl SpawnFailed, w)
                         | Spawns outcome \<Rightarrow>
                             (let process = length (children w);
                                  w1 = w\<lparr>children := children w @ [Live],
                                         os_calls := os_calls w @ [Spawn process cmd_parts working_dir]\<rparr>;
                                  w2 = register_process process_id process w1
                              in case outcome of
                                   Completes exit_code out err \<Rightarrow>
                                     (let w3 = w2\<lparr>children := (children w2)[process := Exited exit_code]\<rparr>;
                                          result =
                                            \<lparr> r_process_id = process_id, r_command = command,
                                              r_exit_code = exit_code, r_stdout = out, r_stderr = err,
                                              r_success = (exit_code = 0), r_executed_at = now,
                                              r_working_directory = working_dir, r_timeout = timeout,
                                              r_timed_out = False \<rparr>;
                                          w4 = w3\<lparr>server := add_to_history result (server w3)\<rparr>
                                      in (Inr result, unregister_process process_id w4))
                                 | CommunicateFails \<Rightarrow>
                                     (Inl CommunicateFailed, unregister_process process_id w2)
                                 | TimesOut \<Rightarrow>
                                     (let w3 = unregister_process process_id w2;
                                          result =
                                            \<lparr> r_process_id = process_id, r_command = command,
                                              r_exit_code = - 1, r_stdout = [],
                                              r_stderr = ''Command timed out after '' @
                                                string_of_nat timeout @ '' seconds'',
                                              r_success = False, r_executed_at = now,
                                              r_working_directory = working_dir, r_timeout = timeout,
                                              r_timed_out = True \<rparr>
                                      in case map_of (running_processes (server w3)) process_id of
                                           Some process' \<Rightarrow>
                                             andthen (send_signal Terminate process')
                                               (\<lambda>_ w'. (Inr result, w'\<lparr>server := (server w')\<lparr>running_processes :=
                                                    AList.delete process_id (running_processes (server w'))\<rparr>\<rparr>))
                                               w3
                                         | None \<Rightarrow> (Inr result, w3)))))))"

text \<open>
  \<^verbatim>\<open>kill_process\<close>. Whether the child ends within the five seconds of grace is the
  environment's choice.
\<close>

datatype wait_outcome = ExitsWith int | StillRunning

record kill_params =
  p_process_id :: "string option"
  p_signal :: "string option"

record kill_result =
  k_process_id :: string
  k_signal :: string
  k_killed :: bool
  k_exit_code :: int
  k_killed_at :: string

definition kill_process ::
  "wait_outcome \<Rightarrow> string \<Rightarrow> kill_params \<Rightarrow> (terminal_error, kill_result, terminal_world) call" where
  "kill_process waited now params w =
     (let signal_type = (case p_signal params of None \<Rightarrow> ''TERM'' | Some s \<Rightarrow> s)
      in case p_process_id params of
           None \<Rightarrow> (Inl ProcessIdRequired, w)
         | Some process_id \<Rightarrow>
             if process_id = [] then (Inl ProcessIdRequired, w)
             else (case map_of (running_processes (server w)) process_id of
                 None \<Rightarrow> (Inl (ProcessNotFound process_id), w)
               | Some process \<Rightarrow>
                   andthen (send_signal (if signal_type = ''KILL'' then Kill else Terminate) process)
                     (\<lambda>_. andthen
                        (case waited of
                           ExitsWith code \<Rightarrow>
                             (\<lambda>w1. (Inr code, w1\<lparr>children := (children w1)[process := Exited code]\<rparr>))
                         | StillRunning \<Rightarrow>
                             andthen (send_signal Kill process)
                               (\<lambda>_ w1. (Inr (- 1), w1\<lparr>children := (children w1)[process := Exited (- 9)]\<rparr>)))
                        (\<lambda>exit_code w2.
                           (Inr \<lparr> k_process_id = process_id, k_signal = signal_type, k_killed = True,
                                  k_exit_code = exit_code, k_killed_at = now \<rparr>,
                            w2\<lparr>server := (server w2)\<lparr>running_processes :=
                                 AList.delete process_id (running_processes (server w2))\<rparr>\<rparr>)))
                     w))"

section \<open>Manager (mcp\_server\_manager.py)\<close>

text \<open>
  A configuration value; \<^verbatim>\<open>config.get('enabled', True)\<close> is tested for truthiness.
\<close>

datatype cfg_value = CNone | CBool bool | CInt int | CStr string | CList "string list"

definition truthy :: "cfg_value \<Rightarrow> bool" where
  "truthy v =
     (case v of CNone \<Rightarrow> False | CBool b \<Rightarrow> b | CInt i \<Rightarrow> i \<noteq> 0
      | CStr s \<Rightarrow> s \<noteq> [] | CList xs \<Rightarrow> xs \<noteq> [])"

type_synonym server_config = "(string \<times> cfg_value) list"

text \<open>
  The exceptions that leave the manager: its own (\<^verbatim>\<open>RuntimeError("MCP server manager not
  initialized")\<close>, \<^verbatim>\<open>ValueError(f"Unknown method prefix: {method}")\<close>,
  \<^verbatim>\<open>ValueError(f"Server not available: {server_type}")\<close>,
  \<^verbatim>\<open>ValueError(f"Unknown server type: {server_name}")\<close>), and \<open>ServerRaised x\<close> for an
  exception \<open>x\<close> raised by a tool server's constructor, \<^verbatim>\<open>initialize()\<close> or
  \<^verbatim>\<open>handle_request\<close>.
\<close>

datatype 'x manager_error =
    NotInitialized
  | UnknownMethodPrefix string
  | ServerNotAvailable string
  | UnknownServerType string
  | ServerRaised 'x

text \<open>
  A registered server object, as far as the manager knows it: the class it was built from
  and the configuration it was built with.
\<close>

datatype server_class =
    FilesystemMCPServer | WebSearchMCPServer | TerminalMCPServer | DatabaseMCPServer

record server_object =
  so_class :: server_class
  so_config :: server_config

record manager =
  servers :: "(string \<times> server_object) list"
  server_configs :: "(string \<times> server_config) list"
  is_initialized :: bool

definition manager_init :: manager where
  "manager_init = \<lparr> servers = [], server_configs = [], is_initialized = False \<rparr>"

definition default_config :: "(string \<times> server_config) list" where
  "default_config =
     [(''filesystem'',
         [(''enabled'', CBool True), (''root_path'', CNone), (''max_file_size'', CInt (10 * 1024 * 1024))]),
      (''web_search'',
         [(''enabled'', CBool True), (''api_key'', CNone), (''max_results'', CInt 10), (''timeout'', CInt 30)]),
      (''terminal'',
         [(''enabled'', CBool True), (''working_directory'', CNone),
          (''allowed_commands'', CList default_allowed_commands)]),
      (''database'',
         [(''enabled'', CBool True), (''database_path'', CStr ''qwen_desktop.db''),
          (''allowed_operations'', CList [''SELECT'', ''INSERT'', ''UPDATE'', ''DELETE''])])]"

text \<open>
  The loop of \<^verbatim>\<open>initialize\<close> that overwrites the defaults: only the names of the default
  configuration are taken from the user's.
\<close>

fun merge_config ::
  "(string \<times> server_config) list \<Rightarrow> (string \<times> server_config) list \<Rightarrow> (string \<times> server_config) list" where
  "merge_config defaults [] = defaults"
| "merge_config defaults ((server_name, server_config) # rest) =
     merge_config
       (case map_of defaults server_name of
          Some d \<Rightarrow> AList.update server_name (dict_update d server_config) defaults
        | None \<Rightarrow> defaults)
       rest"

text \<open>The class that \<^verbatim>\<open>_initialize_server\<close> builds for a server name.\<close>

definition server_class_of :: "string \<Rightarrow> server_class option" where
  "server_class_of server_name =
     (if server_name = ''filesystem'' then Some FilesystemMCPServer
      else if server_name = ''web_search'' then Some WebSearchMCPServer
      else if server_name = ''terminal'' then Some TerminalMCPServer
      else if server_name = ''database'' then Some DatabaseMCPServer
      else None)"

text \<open>
  Whether a server's constructor and its \<^verbatim>\<open>initialize()\<close> go through is the environment's
  choice: \<open>boot name config\<close> is \<open>Some x\<close> when one of them raises \<open>x\<close>.
\<close>

type_synonym 'x boot = "string \<Rightarrow> server_config \<Rightarrow> 'x option"

text \<open>\<^verbatim>\<open>_initialize_server\<close>: the exception is logged and raised again.\<close>

definition initialize_server :: "'x boot \<Rightarrow> string \<Rightarrow> server_config \<Rightarrow> ('x manager_error, unit, manager) call" where
  "initialize_server boot server_name config m =
     (case server_class_of server_name of
        None \<Rightarrow> (Inl (UnknownServerType server_name), m)
      | Some cls \<Rightarrow>
          (case boot server_name config of
             Some x \<Rightarrow> (Inl (ServerRaised x), m)
           | None \<Rightarrow>
               (Inr (), m\<lparr>servers :=
                  AList.update server_name \<lparr> so_class = cls, so_config = config \<rparr> (servers m)\<rparr>)))"

text \<open>
  \<^verbatim>\<open>_initialize_servers\<close>: a plain loop with no handler, so the first exception ends it.
\<close>

definition config_enabled :: "server_config \<Rightarrow> bool" where
  "config_enabled config =
     truthy (case map_of config ''enabled'' of None \<Rightarrow> CBool True | Some v \<Rightarrow> v)"

fun initialize_servers :: "'x boot \<Rightarrow> (string \<times> server_config) list \<Rightarrow> ('x manager_error, unit, manager) call" where
  "initialize_servers boot [] m = (Inr (), m)"
| "initialize_servers boot ((server_name, config) # rest) m =
     (if config_enabled config
      then (case initialize_server boot server_name config m of
              (Inl e, m') \<Rightarrow> (Inl e, m')
            | (Inr _, m') \<Rightarrow> initialize_servers boot rest m')
      else initialize_servers boot rest m)"

text \<open>
  \<^verbatim>\<open>MCPServerManager.initialize\<close>: \<^verbatim>\<open>is_initialized\<close> is set only after the loop; an
  exception is logged and raised again.
\<close>

definition initialize :: "'x boot \<Rightarrow> (string \<times> server_config) list option \<Rightarrow> ('x manager_error, unit, manager) call" where
  "initialize boot config m =
     (let merged = (case config of None \<Rightarrow> default_config
                    | Some c \<Rightarrow> merge_config default_config c);
          m1 = m\<lparr>server_configs := merged\<rparr>
      in case initialize_servers boot (server_configs m1) m1 of
           (Inl e, m2) \<Rightarrow> (Inl e, m2)
         | (Inr _, m2) \<Rightarrow> (Inr (), m2\<lparr>is_initialized := True\<rparr>))"

text \<open>\<^verbatim>\<open>_extract_server_type\<close>.\<close>

definition extract_server_type :: "string \<Rightarrow> 'x manager_error + string" where
  "extract_server_type method =
     (if prefix ''filesystem/'' method then Inr ''filesystem''
      else if prefix ''web/'' method then Inr ''web_search''
      else if prefix ''terminal/'' method then Inr ''terminal''
      else if prefix ''database/'' method then Inr ''database''
      else Inl (UnknownMethodPrefix method))"

text \<open>
  \<^verbatim>\<open>MCPServerManager.handle_request\<close>. What the target server's \<^verbatim>\<open>handle_request\<close> does
  is a parameter: it raises (\<open>Inl\<close>) or returns a value (\<open>Inr\<close>). The handler
  \<^verbatim>\<open>except Exception as e: ...; raise\<close> logs and raises the same exception again.
\<close>

type_synonym ('p, 'x, 'v) handler = "server_object \<Rightarrow> string \<Rightarrow> 'p \<Rightarrow> 'x + 'v"

definition handle_request :: "('p, 'x, 'v) handler \<Rightarrow> string \<Rightarrow> 'p \<Rightarrow> manager \<Rightarrow> 'x manager_error + 'v" where
  "handle_request handler method params m =
     (if \<not> is_initialized m then Inl NotInitialized
      else (case extract_server_type method of
              Inl e \<Rightarrow> Inl e
            | Inr server_type \<Rightarrow>
                (case map_of (servers m) server_type of
                   None \<Rightarrow> Inl (ServerNotAvailable server_type)
                 | Some target \<Rightarrow>
                     (case handler target method params of
                        Inl x \<Rightarrow> Inl (ServerRaised x)
                      | Inr v \<Rightarrow> Inr v))))"

section \<open>Filesystem tool server (filesystem\_server.py)\<close>

subsection \<open>Paths\<close>

text \<open>
  A \<^verbatim>\<open>pathlib\<close> path on a POSIX system: its anchor and its components. The anchor is
  empty for a relative path, \<^verbatim>\<open>//\<close> for a path that begins with exactly two slashes
  and \<^verbatim>\<open>/\<close> for any other path that begins with a slash. Parsing drops empty
  components and \<^verbatim>\<open>.\<close> and keeps \<^verbatim>\<open>..\<close>.
\<close>

record pure_path =
  anchor :: string
  parts :: "string list"

definition is_abs :: "pure_path \<Rightarrow> bool" where
  "is_abs a = (anchor a \<noteq> [])"

fun split_on :: "char \<Rightarrow> string \<Rightarrow> string list" where
  "split_on sep [] = [[]]"
| "split_on sep (c # s) =
     (if c = sep then [] # split_on sep s
      else (case split_on sep s of [] \<Rightarrow> [[c]] | x # xs \<Rightarrow> (c # x) # xs))"











subsection \<open>The server and its errors\<close>

text \<open>
  File contents are Python strings, lists of code points. Their size on disk is the
  length of the UTF-8 encoding.
\<close>

text \<open>
  The exceptions of the filesystem server:
  \<^item> \<open>PathRequired\<close>: \<^verbatim>\<open>ValueError("Path parameter is required")\<close>;
  \<^item> \<open>SourceDestinationRequired\<close>:
    \<^verbatim>\<open>ValueError("Source and destination parameters are required")\<close>;
  \<^item> \<open>AccessDenied p\<close>: \<^verbatim>\<open>ValueError(f"Access denied: {p}")\<close>;
  \<^item> \<open>FileNotFound\<close>, \<open>DirectoryNotFound\<close>, \<open>SearchPathNotFound\<close>, \<open>SourceNotFound\<close>: the
    four \<^verbatim>\<open>FileNotFoundError\<close>s;
  \<^item> \<open>NotAFile\<close>, \<open>NotADirectory\<close>, \<open>SearchPathNotADirectory\<close>: \<^verbatim>\<open>ValueError\<close>s;
  \<^item> \<open>FileTooLarge size limit\<close>: \<^verbatim>\<open>ValueError(f"File too large: ...")\<close>;
  \<^item> \<open>FileExists\<close>: \<^verbatim>\<open>FileExistsError(f"File already exists: ...")\<close>;
  \<^item> \<open>NotRelative\<close>: the \<^verbatim>\<open>ValueError\<close> of \<^verbatim>\<open>relative_to\<close>;
  \<^item> \<open>UnknownMethod\<close>: \<^verbatim>\<open>ValueError(f"Unknown method: {method}")\<close>;
  \<^item> \<open>OSError\<close>: whatever else a call into the operating system or the library raises.
\<close>

datatype fs_error =
    PathRequired
  | SourceDestinationRequired
  | AccessDenied pure_path
  | FileNotFound string
  | DirectoryNotFound string
  | SearchPathNotFound string
  | SourceNotFound string
  | NotAFile string
  | NotADirectory string
  | SearchPathNotADirectory string
  | FileTooLarge nat nat
  | FileExists string
  | NotRelative
  | UnknownMethod string
  | OSError string




subsection \<open>The calls into the operating system\<close>

text \<open>
  The server reaches the file system through \<^verbatim>\<open>pathlib\<close>, \<^verbatim>\<open>aiofiles\<close>, \<^verbatim>\<open>glob\<close> and
  \<^verbatim>\<open>shutil\<close>. These calls are parameters of the model, over any type \<open>'w\<close> of worlds:
  each takes the world and returns an exception or a value, and the world after it.
  The time stamps of \<^verbatim>\<open>stat\<close> are kept as the text that \<^verbatim>\<open>isoformat()\<close> makes of
  them.

  \<open>resolve\<close> is \<^verbatim>\<open>Path.resolve()\<close>: it reads the world without changing it and gives
  the components of the canonical path below \<^verbatim>\<open>/\<close>, or raises: a \<^verbatim>\<open>ValueError\<close> (for
  a path with an embedded null character) or something else (\<^verbatim>\<open>RuntimeError\<close> for a
  loop of symbolic links, in the versions of Python that raise it).
\<close>

datatype resolve_error = ResolveValueError | ResolveError string

record stat_result =
  st_size :: nat
  st_ctime :: string
  st_mtime :: string
  st_mode :: nat
  st_uid :: nat
  st_gid :: nat

record 'w file_api =
  resolve :: "'w \<Rightarrow> pure_path \<Rightarrow> resolve_error + string list"
  path_exists :: "pure_path \<Rightarrow> (fs_error, bool, 'w) call"
  is_file :: "pure_path \<Rightarrow> (fs_error, bool, 'w) call"
  is_dir :: "pure_path \<Rightarrow> (fs_error, bool, 'w) call"
  stat :: "pure_path \<Rightarrow> (fs_error, stat_result, 'w) call"
  read_text :: "pure_path \<Rightarrow> (fs_error, ustring, 'w) call"
  write_text :: "pure_path \<Rightarrow> ustring \<Rightarrow> (fs_error, unit, 'w) call"
  mkdir_parents :: "pure_path \<Rightarrow> (fs_error, unit, 'w) call"







subsection \<open>The nine operations\<close>




















subsection \<open>A POSIX file system without symbolic links\<close>

text \<open>
  One world for the calls that \<^verbatim>\<open>read_file\<close>, \<^verbatim>\<open>write_file\<close>,
  \<^verbatim>\<open>create_directory\<close> and \<^verbatim>\<open>get_file_info\<close> make: a tree of directories and UTF-8
  text files, keyed by the components below the root directory, the current directory,
  a clock, and the log of the calls made. A file holds the text that decoding its bytes
  gives. Every call is permitted to the process.
\<close>

datatype node = File ustring | Dir

record world =
  cwd :: "string list"
  nodes :: "(string list \<times> node) list"
  clock :: string
  io_log :: "(string \<times> pure_path) list"

definition node_at :: "world \<Rightarrow> string list \<Rightarrow> node option" where
  "node_at w k = (if k = [] then Some Dir else map_of (nodes w) k)"

definition step :: "string list \<Rightarrow> string \<Rightarrow> string list" where
  "step cur c = (if c = ''..'' then butlast cur else cur @ [c])"

text \<open>
  A path with an embedded null character names nothing: the calls that take it raise
  \<^verbatim>\<open>ValueError\<close>, and \<^verbatim>\<open>exists\<close>, \<^verbatim>\<open>is_file\<close> and \<^verbatim>\<open>is_dir\<close> answer \<^verbatim>\<open>False\<close>.
\<close>

definition embedded_null :: "pure_path \<Rightarrow> bool" where
  "embedded_null a = list_ex (\<lambda>c. CHR 0x00 \<in> set c) (parts a)"

text \<open>Without symbolic links \<^verbatim>\<open>Path.resolve()\<close> only removes the \<^verbatim>\<open>..\<close> components.\<close>

definition posix_resolve :: "world \<Rightarrow> pure_path \<Rightarrow> resolve_error + string list" where
  "posix_resolve w a =
     (if embedded_null a then Inl ResolveValueError
      else Inr (foldl step (if is_abs a then [] else cwd w) (parts a)))"

text \<open>
  The kernel's walk along a path: every component but the last must lead through a
  directory. \<open>None\<close> is \<^verbatim>\<open>ENOENT\<close> or \<^verbatim>\<open>ENOTDIR\<close>.
\<close>

fun walk :: "world \<Rightarrow> string list \<Rightarrow> string list \<Rightarrow> string list option" where
  "walk w cur [] = Some cur"
| "walk w cur (c # cs) = (if node_at w cur = Some Dir then walk w (step cur c) cs else None)"

definition locate :: "world \<Rightarrow> pure_path \<Rightarrow> string list option" where
  "locate w a = walk w (if is_abs a then [] else cwd w) (parts a)"

definition logged :: "string \<Rightarrow> pure_path \<Rightarrow> world \<Rightarrow> world" where
  "logged call a w = w\<lparr>io_log := io_log w @ [(call, a)]\<rparr>"

definition lookup :: "world \<Rightarrow> pure_path \<Rightarrow> node option" where
  "lookup w a =
     (if embedded_null a then None
      else (case locate w a of None \<Rightarrow> None | Some k \<Rightarrow> node_at w k))"

definition posix_exists :: "pure_path \<Rightarrow> (fs_error, bool, world) call" where
  "posix_exists a w = (Inr (lookup w a \<noteq> None), logged ''exists'' a w)"

definition posix_is_file :: "pure_path \<Rightarrow> (fs_error, bool, world) call" where
  "posix_is_file a w =
     (Inr (case lookup w a of Some (File _) \<Rightarrow> True | _ \<Rightarrow> False), logged ''is_file'' a w)"

definition posix_is_dir :: "pure_path \<Rightarrow> (fs_error, bool, world) call" where
  "posix_is_dir a w = (Inr (lookup w a = Some Dir), logged ''is_dir'' a w)"

text \<open>The number of bytes of a code point in UTF-8, and of a text.\<close>

definition utf8_bytes :: "nat \<Rightarrow> nat" where
  "utf8_bytes c = (if c < 0x80 then 1 else if c < 0x800 then 2 else if c < 0x10000 then 3 else 4)"

definition utf8_length :: "ustring \<Rightarrow> nat" where
  "utf8_length s = sum_list (map utf8_bytes s)"

text \<open>A lone surrogate has no UTF-8 encoding: writing it raises \<^verbatim>\<open>UnicodeEncodeError\<close>.\<close>

definition encodable :: "ustring \<Rightarrow> bool" where
  "encodable s = list_all (\<lambda>c. \<not> (0xD800 \<le> c \<and> c \<le> 0xDFFF)) s"

definition posix_stat :: "pure_path \<Rightarrow> (fs_error, stat_result, world) call" where
  "posix_stat a w =
     (if embedded_null a then (Inl (OSError ''ValueError''), w)
      else (case lookup w a of
        None \<Rightarrow> (Inl (OSError ''ENOENT''), logged ''stat'' a w)
      | Some n \<Rightarrow>
          (Inr \<lparr> st_size = (case n of File t \<Rightarrow> utf8_length t | Dir \<Rightarrow> 4096),
                 st_ctime = clock w, st_mtime = clock w,
                 st_mode = (case n of File _ \<Rightarrow> 33188 | Dir \<Rightarrow> 16877),
                 st_uid = 0, st_gid = 0 \<rparr>,
           logged ''stat'' a w)))"

text \<open>
  Reading in text mode with the default \<^verbatim>\<open>newline=None\<close>: \<^verbatim>\<open>\r\n\<close> and a lone \<^verbatim>\<open>\r\<close>
  both come back as \<^verbatim>\<open>\n\<close>.
\<close>

fun universal_newlines :: "ustring \<Rightarrow> ustring" where
  "universal_newlines [] = []"
| "universal_newlines [c] = (if c = 13 then [10] else [c])"
| "universal_newlines (c # d # s) =
     (if c = 13 \<and> d = 10 then 10 # universal_newlines s
      else if c = 13 then 10 # universal_newlines (d # s)
      else c # universal_newlines (d # s))"

definition posix_read_text :: "pure_path \<Rightarrow> (fs_error, ustring, world) call" where
  "posix_read_text a w =
     (if embedded_null a then (Inl (OSError ''ValueError''), w)
      else (case lookup w a of
        None \<Rightarrow> (Inl (OSError ''ENOENT''), logged ''open'' a w)
      | Some Dir \<Rightarrow> (Inl (OSError ''EISDIR''), logged ''open'' a w)
      | Some (File t) \<Rightarrow> (Inr (universal_newlines t), logged ''open'' a w)))"

text \<open>
  Opening for writing creates or truncates the file; the text is encoded when it is
  written, so an encoding error leaves the file empty. On POSIX \<^verbatim>\<open>\n\<close> is written as
  it is.
\<close>

definition posix_write_text :: "pure_path \<Rightarrow> ustring \<Rightarrow> (fs_error, unit, world) call" where
  "posix_write_text a content w =
     (if embedded_null a then (Inl (OSError ''ValueError''), w)
      else (case locate w a of
        None \<Rightarrow> (Inl (OSError ''ENOENT''), logged ''open'' a w)
      | Some k \<Rightarrow>
          (case node_at w k of
             Some Dir \<Rightarrow> (Inl (OSError ''EISDIR''), logged ''open'' a w)
           | _ \<Rightarrow>
               if encodable content
               then (Inr (), logged ''open'' a (w\<lparr>nodes := AList.update k (File content) (nodes w)\<rparr>))
               else (Inl (OSError ''UnicodeEncodeError''),
                     logged ''open'' a (w\<lparr>nodes := AList.update k (File []) (nodes w)\<rparr>)))))"

text \<open>
  \<^verbatim>\<open>mkdir(parents=True, exist_ok=True)\<close>: the missing directories along the path are
  made; a file in the way is \<^verbatim>\<open>EEXIST\<close> at the end of the path and \<^verbatim>\<open>ENOTDIR\<close> before.
\<close>

fun mkdirs :: "string list \<Rightarrow> string list \<Rightarrow> (fs_error, unit, world) call" where
  "mkdirs cur [] w = (Inr (), w)"
| "mkdirs cur (c # cs) w =
     (case node_at w (step cur c) of
        Some Dir \<Rightarrow> mkdirs (step cur c) cs w
      | Some (File t) \<Rightarrow> (Inl (OSError (if cs = [] then ''EEXIST'' else ''ENOTDIR'')), w)
      | None \<Rightarrow> mkdirs (step cur c) cs (w\<lparr>nodes := AList.update (step cur c) Dir (nodes w)\<rparr>))"

definition posix_mkdir_parents :: "pure_path \<Rightarrow> (fs_error, unit, world) call" where
  "posix_mkdir_parents a w =
     (if embedded_null a then (Inl (OSError ''ValueError''), w)
      else (case mkdirs (if is_abs a then [] else cwd w) (parts a) w of
        (r, w') \<Rightarrow> (r, logged ''mkdir'' a w')))"

definition posix :: "world file_api" where
  "posix =
     \<lparr> resolve = posix_resolve, path_exists = posix_exists, is_file = posix_is_file,
       is_dir = posix_is_dir, stat = posix_stat, read_text = posix_read_text,
       write_text = posix_write_text, mkdir_parents = posix_mkdir_parents \<rparr>"






section \<open>Concrete states for the examples\<close>

text \<open>
  \<^verbatim>\<open>str.upper\<close> as it acts on ASCII text; the examples use it on ASCII statements only.
\<close>

definition ascii_upper :: upper_fn where
  "ascii_upper s = map (\<lambda>c. if 97 \<le> c \<and> c \<le> 122 then c - 32 else c) s"

text \<open>
  A database server as \<^verbatim>\<open>initialize\<close> leaves it, with default settings and the
  \<^verbatim>\<open>default\<close> connection open, and an engine that answers every statement with one row.
\<close>

definition demo_db :: database_server where
  "demo_db = (database_init None None)\<lparr>connections :=
      [(''default'', \<lparr>c_path = ''qwen_desktop.db'', c_executed = [], c_commits = 0\<rparr>)]\<rparr>"

definition demo_engine :: engine where
  "demo_engine database sql = SqlOk (Some [''n'']) [[''1'']] (- 1) None"

text \<open>
  Following the words of claim C2 and of the specification, not the source: the leading
  verb of a statement is its first word, after upper-casing and stripping; and the
  destructive keywords of the deny-list are \<^verbatim>\<open>DROP\<close>, \<^verbatim>\<open>TRUNCATE\<close>, \<^verbatim>\<open>ALTER\<close>,
  \<^verbatim>\<open>CREATE INDEX\<close> and \<^verbatim>\<open>DROP INDEX\<close>.
\<close>

definition claimed_leading_verb :: "upper_fn \<Rightarrow> ustring \<Rightarrow> ustring" where
  "claimed_leading_verb upper sql = takeWhile (\<lambda>c. \<not> is_space c) (py_strip (upper sql))"

definition claimed_destructive_keywords :: "ustring list" where
  "claimed_destructive_keywords =
     map ucode [''DROP'', ''TRUNCATE'', ''ALTER'', ''CREATE INDEX'', ''DROP INDEX'']"

text \<open>
  A tokenizer for the examples: on a command without quotes, backslashes, tabs or line
  breaks \<^verbatim>\<open>shlex.split\<close> cuts at the runs of spaces.
\<close>

definition demo_split :: tokenizer where
  "demo_split s = Some (filter (\<lambda>token. token \<noteq> []) (split_on (CHR '' '') s))"

text \<open>
  A terminal server constructed with the given allow-list (\<open>None\<close> for the default), in
  \<^verbatim>\<open>/srv\<close>, with no child yet.
\<close>

definition demo_terminal :: "string list option \<Rightarrow> terminal_world" where
  "demo_terminal commands =
     \<lparr> server = terminal_init ''/srv'' None commands, children = [], os_calls = [] \<rparr>"

text \<open>
  The property of claim C7 as a predicate on worlds: the table maps each id to one handle,
  no handle twice, and every handle in it is a live child.
\<close>

definition table_ok :: "terminal_world \<Rightarrow> bool" where
  "table_ok w =
     (distinct (map fst (running_processes (server w))) \<and>
      distinct (map snd (running_processes (server w))) \<and>
      list_all (\<lambda>(process_id, h). h < length (children w) \<and> children w ! h = Live)
        (running_processes (server w)))"

text \<open>The same server while one \<^verbatim>\<open>sleep 10\<close> is in flight.\<close>

definition demo_busy :: terminal_world where
  "demo_busy =
     \<lparr> server = (terminal_init ''/srv'' None (Some [''sleep'']))
                  \<lparr>running_processes := [(''proc_1.0_0'', 0)]\<rparr>,
       children = [Live],
       os_calls = [Spawn 0 [''sleep'', ''10''] ''/srv''] \<rparr>"

text \<open>
  A manager after \<^verbatim>\<open>initialize()\<close> with the default configuration, every server
  starting; and an environment in which only the terminal server fails to start.
\<close>

definition demo_manager :: manager where
  "demo_manager = snd (initialize (\<lambda>server_name config. None :: string option) None manager_init)"

definition terminal_fails :: "string boot" where
  "terminal_fails server_name config =
     (if server_name = ''terminal'' then Some ''PermissionError'' else None)"

text \<open>A handler that raises on every request, and one that answers.\<close>

definition raising_handler :: "(unit, string, string) handler" where
  "raising_handler target method params = Inl ''KeyError''"

definition answering_handler :: "(unit, string, string) handler" where
  "answering_handler target method params = Inr ''ok''"

text \<open>
  Following the words of claim C6, not the source: the part of a method name before its
  first \<^verbatim>\<open>/\<close>, and the server each such prefix stands for.
\<close>

definition prefix_before_slash :: "string \<Rightarrow> string option" where
  "prefix_before_slash method =
     (if CHR ''/'' \<in> set method then Some (takeWhile (\<lambda>c. c \<noteq> CHR ''/'') method) else None)"

definition routing_table :: "(string \<times> string) list" where
  "routing_table =
     [(''filesystem'', ''filesystem''), (''web'', ''web_search''),
      (''terminal'', ''terminal''), (''database'', ''database'')]"

text \<open>A text of 5242881 letters \<^verbatim>\<open>U+00E9\<close>, two bytes each in UTF-8.\<close>

definition long_text :: ustring where
  "long_text = replicate 5242881 233"

section \<open>Verification\<close>

subsection \<open>History buffers\<close>

lemma add_to_history_window:
  assumes "0 < max_history self"
  shows "command_history (add_to_history r self) =
           drop (Suc (length (command_history self)) - max_history self)
             (command_history self @ [history_item r])
         \<and> max_history (add_to_history r self) = max_history self"
  using assms by (simp add: add_to_history_def Let_def py_last_def)

lemma fold_add_to_history:
  assumes "0 < max_history self" and "length (command_history self) \<le> max_history self"
  shows "max_history (fold add_to_history rs self) = max_history self \<and>
         command_history (fold add_to_history rs self) =
           drop (length (command_history self) + length rs - max_history self)
             (command_history self @ map history_item rs)"
  using assms
proof (induction rs arbitrary: self)
  case Nil
  then show ?case by simp
next
  case (Cons r rs)
  let ?s = "add_to_history r self"
  have step: "command_history ?s =
           drop (Suc (length (command_history self)) - max_history self)
             (command_history self @ [history_item r])"
    and keep: "max_history ?s = max_history self"
    using add_to_history_window [OF Cons.prems(1)] by simp_all
  have pos: "0 < max_history ?s" using keep Cons.prems by simp
  have len: "length (command_history ?s) \<le> max_history ?s"
    using Cons.prems by (simp add: step keep)
  show ?case
  proof (cases "length (command_history self) < max_history self")
    case True
    then show ?thesis using Cons.IH [OF pos len] by (simp add: step keep)
  next
    case False
    then have full: "length (command_history self) = max_history self"
      using Cons.prems(2) by simp
    show ?thesis using Cons.IH [OF pos len] Cons.prems(1)
      by (simp add: step keep full drop_Suc drop_tl)
  qed
qed

lemma db_add_to_history_window:
  assumes "0 < db_max_history self"
  shows "query_history (db_add_to_history r self) =
           drop (Suc (length (query_history self)) - db_max_history self)
             (query_history self @ [db_history_item r])
         \<and> db_max_history (db_add_to_history r self) = db_max_history self"
  using assms by (simp add: db_add_to_history_def Let_def py_last_def)

lemma fold_db_add_to_history:
  assumes "0 < db_max_history self" and "length (query_history self) \<le> db_max_history self"
  shows "db_max_history (fold db_add_to_history rs self) = db_max_history self \<and>
         query_history (fold db_add_to_history rs self) =
           drop (length (query_history self) + length rs - db_max_history self)
             (query_history self @ map db_history_item rs)"
  using assms
proof (induction rs arbitrary: self)
  case Nil
  then show ?case by simp
next
  case (Cons r rs)
  let ?s = "db_add_to_history r self"
  have step: "query_history ?s =
           drop (Suc (length (query_history self)) - db_max_history self)
             (query_history self @ [db_history_item r])"
    and keep: "db_max_history ?s = db_max_history self"
    using db_add_to_history_window [OF Cons.prems(1)] by simp_all
  have pos: "0 < db_max_history ?s" using keep Cons.prems by simp
  have len: "length (query_history ?s) \<le> db_max_history ?s"
    using Cons.prems by (simp add: step keep)
  show ?case
  proof (cases "length (query_history self) < db_max_history self")
    case True
    then show ?thesis using Cons.IH [OF pos len] by (simp add: step keep)
  next
    case False
    then have full: "length (query_history self) = db_max_history self"
      using Cons.prems(2) by simp
    show ?thesis using Cons.IH [OF pos len] Cons.prems(1)
      by (simp add: step keep full drop_Suc drop_tl)
  qed
qed

text \<open>
  Claim C9. Whatever results are appended, in any number, to the history of a freshly
  constructed terminal server or database server, the buffer never holds more than 100
  entries, and it holds exactly the most recent ones, in the order of their arrival: the
  oldest are the ones dropped.
\<close>

theorem history_buffers_bounded:
  "length (command_history (fold add_to_history rs (terminal_init cwd' dir cmds))) \<le> 100 \<and>
   command_history (fold add_to_history rs (terminal_init cwd' dir cmds)) =
     drop (length rs - 100) (map history_item rs) \<and>
   length (query_history (fold db_add_to_history qs (database_init path ops))) \<le> 100 \<and>
   query_history (fold db_add_to_history qs (database_init path ops)) =
     drop (length qs - 100) (map db_history_item qs)"
proof -
  have t: "command_history (fold add_to_history rs (terminal_init cwd' dir cmds)) =
             drop (length rs - 100) (map history_item rs)"
    using fold_add_to_history [of "terminal_init cwd' dir cmds" rs]
    by (simp add: terminal_init_def)
  have d: "query_history (fold db_add_to_history qs (database_init path ops)) =
             drop (length qs - 100) (map db_history_item qs)"
    using fold_db_add_to_history [of "database_init path ops" qs]
    by (simp add: database_init_def)
  have a: "\<And>n::nat. n - (n - 100) \<le> 100" by arith
  show ?thesis by (simp add: t d a)
qed

subsection \<open>SQL validation\<close>

lemma contains_iff: "contains p s \<longleftrightarrow> (\<exists>a b. s = a @ p @ b)"
proof (induction s)
  case Nil
  then show ?case by auto
next
  case (Cons c s)
  show ?case
  proof
    assume "contains p (c # s)"
    then consider "prefix p (c # s)" | "contains p s" by auto
    then show "\<exists>a b. c # s = a @ p @ b"
    proof cases
      case 1
      then obtain b where "c # s = p @ b" by (auto simp: prefix_def)
      then have "c # s = [] @ p @ b" by simp
      then show ?thesis by blast
    next
      case 2
      then obtain a b where "s = a @ p @ b" using Cons.IH by blast
      then have "c # s = (c # a) @ p @ b" by simp
      then show ?thesis by blast
    qed
  next
    assume "\<exists>a b. c # s = a @ p @ b"
    then obtain a b where ab: "c # s = a @ p @ b" by blast
    show "contains p (c # s)"
    proof (cases a)
      case Nil
      then have "prefix p (c # s)" using ab by (simp add: prefix_def)
      then show ?thesis by simp
    next
      case (Cons x a')
      then have "s = a' @ p @ b" using ab by simp
      then have "contains p s" using Cons.IH by blast
      then show ?thesis by simp
    qed
  qed
qed

lemma dropWhile_keeps:
  assumes "p \<noteq> []" and "\<not> P (hd p)"
  shows "dropWhile P (a @ p @ b) = dropWhile P a @ p @ b"
proof -
  obtain x p' where p: "p = x # p'" using assms(1) by (cases p) auto
  then have "\<not> P x" using assms(2) by simp
  then show ?thesis by (induction a) (auto simp: p)
qed

text \<open>Stripping keeps every occurrence of a pattern that begins and ends in a letter.\<close>

lemma contains_strip:
  assumes "p \<noteq> []" and "\<not> is_space (hd p)" and "\<not> is_space (last p)"
    and "contains p s"
  shows "contains p (py_strip s)"
proof -
  obtain a b where s: "s = a @ p @ b" using assms(4) contains_iff by blast
  have front: "dropWhile is_space s = dropWhile is_space a @ p @ b"
    using dropWhile_keeps [of p is_space a b] assms(1,2) s by simp
  have rp: "rev p \<noteq> []" "\<not> is_space (hd (rev p))"
    using assms(1,3) by (simp_all add: hd_rev)
  have "rev (dropWhile is_space s) = rev b @ rev p @ rev (dropWhile is_space a)"
    by (simp add: front)
  then have "dropWhile is_space (rev (dropWhile is_space s)) =
      dropWhile is_space (rev b) @ rev p @ rev (dropWhile is_space a)"
    using dropWhile_keeps [of "rev p" is_space "rev b" "rev (dropWhile is_space a)"] rp by simp
  then have "py_strip s = dropWhile is_space a @ p @ rev (dropWhile is_space (rev b))"
    by (simp add: py_strip_def)
  then show ?thesis using contains_iff by blast
qed

lemma rev_split: "t = rev (dropWhile P (rev t)) @ rev (takeWhile P (rev t))"
proof -
  have "rev (rev t) = rev (takeWhile P (rev t) @ dropWhile P (rev t))"
    by (simp only: takeWhile_dropWhile_id)
  then show ?thesis by (simp only: rev_rev_ident rev_append)
qed

lemma strip_inside: "\<exists>a b. s = a @ py_strip s @ b"
proof -
  let ?t = "dropWhile is_space s"
  have 1: "s = takeWhile is_space s @ ?t" by simp
  have 2: "?t = py_strip s @ rev (takeWhile is_space (rev ?t))"
    unfolding py_strip_def by (rule rev_split)
  have "s = takeWhile is_space s @ py_strip s @ rev (takeWhile is_space (rev ?t))"
    using 1 2 by metis
  then show ?thesis by blast
qed

lemma contains_strip_imp: "contains p (py_strip s) \<Longrightarrow> contains p s"
proof -
  assume "contains p (py_strip s)"
  then obtain a b where ab: "py_strip s = a @ p @ b" using contains_iff by blast
  obtain c d where "s = c @ py_strip s @ d" using strip_inside by blast
  then have "s = (c @ a) @ p @ (b @ d)" using ab by simp
  then show ?thesis using contains_iff by blast
qed

lemma first_pattern_None: "first_pattern ps q = None \<longleftrightarrow> (\<forall>p \<in> set ps. \<not> contains p q)"
  by (induction ps) auto

lemma first_pattern_Some: "first_pattern ps q = Some p \<Longrightarrow> p \<in> set ps \<and> contains p q"
  by (induction ps) (auto split: if_splits)

lemma first_operation_None: "first_operation ops q = None \<longleftrightarrow> (\<forall>op \<in> set ops. \<not> prefix op q)"
  by (induction ops) auto

lemma first_operation_Some: "first_operation ops q = Some op \<Longrightarrow> op \<in> set ops \<and> prefix op q"
  by (induction ops) (auto split: if_splits)

lemma query_patterns_solid:
  "pattern \<in> set query_dangerous_patterns \<Longrightarrow>
     pattern \<noteq> [] \<and> \<not> is_space (hd pattern) \<and> \<not> is_space (last pattern)"
  by (auto simp: query_dangerous_patterns_def is_space_def ucode_def)

lemma statement_patterns_solid:
  "pattern \<in> set statement_dangerous_patterns \<Longrightarrow>
     pattern \<noteq> [] \<and> \<not> is_space (hd pattern) \<and> \<not> is_space (last pattern)"
  by (auto simp: statement_dangerous_patterns_def is_space_def ucode_def)

lemma validate_sql_rejects:
  assumes "\<not> (\<exists>op \<in> set allowed. prefix op (py_strip (upper sql))) \<or>
           (\<exists>pattern \<in> set patterns. contains pattern (py_strip (upper sql)))"
  shows "\<exists>e. validate_sql upper patterns allowed sql = Inl e"
proof (cases "first_operation allowed (py_strip (upper sql))")
  case None
  then show ?thesis by (simp add: validate_sql_def)
next
  case (Some operation)
  then have "\<exists>op \<in> set allowed. prefix op (py_strip (upper sql))"
    using first_operation_Some by blast
  then have "\<exists>pattern \<in> set patterns. contains pattern (py_strip (upper sql))"
    using assms by blast
  then have "first_pattern patterns (py_strip (upper sql)) \<noteq> None"
    using first_pattern_None by blast
  then show ?thesis using Some by (auto simp: validate_sql_def)
qed

lemma execute_query_rejected:
  assumes "p_query params = Some sql" and "validate_query upper self sql = Inl e"
  shows "\<exists>e'. execute_query upper eng now params self = (Inl e', self)"
  using assms by (cases "sql = []") (simp_all add: execute_query_def Let_def)

lemma execute_statement_rejected:
  assumes "p_statement params = Some sql" and "validate_statement upper self sql = Inl e"
  shows "\<exists>e'. execute_statement upper eng now params self = (Inl e', self)"
  using assms by (cases "sql = []") (simp_all add: execute_statement_def Let_def)

lemma query_path_rejects:
  assumes "p_query qp = Some sql"
    and "\<not> (\<exists>op \<in> set (allowed_operations self). prefix op (py_strip (upper sql))) \<or>
         (\<exists>pattern \<in> set query_dangerous_patterns. contains pattern (upper sql))"
  shows "\<exists>e. execute_query upper eng now qp self = (Inl e, self)"
proof -
  have "\<not> (\<exists>op \<in> set (allowed_operations self). prefix op (py_strip (upper sql))) \<or>
       (\<exists>pattern \<in> set query_dangerous_patterns. contains pattern (py_strip (upper sql)))"
    using assms(2) contains_strip query_patterns_solid by blast
  then obtain e where "validate_query upper self sql = Inl e"
    using validate_sql_rejects unfolding validate_query_def by blast
  then show ?thesis using assms(1) execute_query_rejected by blast
qed

lemma statement_path_rejects:
  assumes "p_statement sp = Some sql"
    and "\<not> (\<exists>op \<in> set (allowed_operations self). prefix op (py_strip (upper sql))) \<or>
         (\<exists>pattern \<in> set statement_dangerous_patterns. contains pattern (upper sql))"
  shows "\<exists>e. execute_statement upper eng now sp self = (Inl e, self)"
proof -
  have "\<not> (\<exists>op \<in> set (allowed_operations self). prefix op (py_strip (upper sql))) \<or>
       (\<exists>pattern \<in> set statement_dangerous_patterns. contains pattern (py_strip (upper sql)))"
    using assms(2) contains_strip statement_patterns_solid by blast
  then obtain e where "validate_statement upper self sql = Inl e"
    using validate_sql_rejects unfolding validate_statement_def by blast
  then show ?thesis using assms(1) execute_statement_rejected by blast
qed

lemmas db_eval = demo_db_def demo_engine_def database_init_def default_operations_def
  validate_query_def validate_statement_def validate_sql_def ascii_upper_def ucode_def
  py_strip_def is_space_def query_dangerous_patterns_def statement_dangerous_patterns_def
  execute_query_def execute_statement_def Let_def andthen_def cursor_execute_def
  column_names_def fetchmany_def py_dict_def dict_update_def return_def raise_def
  db_add_to_history_def db_history_item_def py_last_def commit_def claimed_leading_verb_def
  claimed_destructive_keywords_def

text \<open>
  Claim C2, as it is written, fails, on both of its conditions.

  The statement \<^verbatim>\<open>SELECTX 1\<close> has the leading verb \<^verbatim>\<open>SELECTX\<close>, which is not in the
  default allow-list; \<^verbatim>\<open>database/query\<close> hands it to the engine all the same, because
  the check is \<^verbatim>\<open>startswith\<close> on the characters and \<^verbatim>\<open>SELECT\<close> begins the text.

  The statement \<^verbatim>\<open>SELECT 1; DROP VIEW v\<close> contains the destructive keyword \<^verbatim>\<open>DROP\<close>;
  both validators accept it and \<^verbatim>\<open>database/query\<close> hands it to the engine, because the
  deny-lists hold the longer patterns \<^verbatim>\<open>DROP TABLE\<close>, \<^verbatim>\<open>DROP DATABASE\<close> and
  \<^verbatim>\<open>DROP INDEX\<close>, not the keyword.
\<close>

theorem leading_verb_counterexample:
  "claimed_leading_verb ascii_upper (ucode ''SELECTX 1'') = ucode ''SELECTX'' \<and>
   ucode ''SELECTX'' \<notin> set (allowed_operations demo_db) \<and>
   validate_query ascii_upper demo_db (ucode ''SELECTX 1'') = Inr () \<and>
   map_of (connections (snd (execute_query ascii_upper demo_engine ''t''
          \<lparr>p_query = Some (ucode ''SELECTX 1''), p_database = None, p_fetch_type = None,
            p_limit = None\<rparr> demo_db))) ''default'' =
     Some \<lparr>c_path = ''qwen_desktop.db'', c_executed = [ucode ''SELECTX 1''], c_commits = 0\<rparr> \<and>
   ucode ''DROP'' \<in> set claimed_destructive_keywords \<and>
   contains (ucode ''DROP'') (ascii_upper (ucode ''SELECT 1; DROP VIEW v'')) \<and>
   claimed_leading_verb ascii_upper (ucode ''SELECT 1; DROP VIEW v'') = ucode ''SELECT'' \<and>
   validate_query ascii_upper demo_db (ucode ''SELECT 1; DROP VIEW v'') = Inr () \<and>
   validate_statement ascii_upper demo_db (ucode ''SELECT 1; DROP VIEW v'') = Inr () \<and>
   map_of (connections (snd (execute_query ascii_upper demo_engine ''t''
          \<lparr>p_query = Some (ucode ''SELECT 1; DROP VIEW v''), p_database = None,
            p_fetch_type = None, p_limit = None\<rparr> demo_db))) ''default'' =
     Some \<lparr>c_path = ''qwen_desktop.db'', c_executed = [ucode ''SELECT 1; DROP VIEW v''],
            c_commits = 0\<rparr>"
  by (simp add: db_eval)

text \<open>
  Claim C2, amended. For every SQL string given to \<^verbatim>\<open>database/query\<close> or
  \<^verbatim>\<open>database/execute\<close>, and whatever \<^verbatim>\<open>str.upper\<close> does: if no verb of the configured
  allow-list is a prefix of the upper-cased, stripped string, or the upper-cased string
  contains one of the literal patterns of the deny-list of that entry point, the call
  raises and leaves the server as it was: no statement was handed to a connection and
  the history is unchanged. The two tests are independent and ignore case.
\<close>

theorem sql_rejected_before_engine:
  "(p_query qp = Some sql \<and>
      (\<not> (\<exists>op \<in> set (allowed_operations self). prefix op (py_strip (upper sql))) \<or>
       (\<exists>pattern \<in> set query_dangerous_patterns. contains pattern (upper sql)))
     \<longrightarrow> (\<exists>e. execute_query upper eng now qp self = (Inl e, self))) \<and>
   (p_statement sp = Some sql \<and>
      (\<not> (\<exists>op \<in> set (allowed_operations self). prefix op (py_strip (upper sql))) \<or>
       (\<exists>pattern \<in> set statement_dangerous_patterns. contains pattern (upper sql)))
     \<longrightarrow> (\<exists>e. execute_statement upper eng now sp self = (Inl e, self)))"
  using query_path_rejects [of qp sql self upper eng now]
    statement_path_rejects [of sp sql self upper eng now]
  by blast

text \<open>The amended claim at \<^verbatim>\<open>query("drop table users")\<close>, on both entry points.\<close>

theorem sql_rejected_before_engine_witness:
  "(\<exists>e. execute_query ascii_upper demo_engine ''t''
          \<lparr>p_query = Some (ucode ''drop table users''), p_database = None,
            p_fetch_type = None, p_limit = None\<rparr>
          demo_db = (Inl e, demo_db)) \<and>
   (\<exists>e. execute_statement ascii_upper demo_engine ''t''
          \<lparr>p_statement = Some (ucode ''drop table users''), p_stmt_database = None\<rparr>
          demo_db = (Inl e, demo_db))"
  using sql_rejected_before_engine [of
      "\<lparr>p_query = Some (ucode ''drop table users''), p_database = None,
            p_fetch_type = None, p_limit = None\<rparr>"
      "ucode ''drop table users''" demo_db ascii_upper demo_engine "''t''"
      "\<lparr>p_statement = Some (ucode ''drop table users''), p_stmt_database = None\<rparr>"]
  by (simp add: db_eval)

lemma first_operation_delete:
  assumes "prefix (ucode ''DELETE'') t"
  shows "first_operation (map ucode [''SELECT'', ''INSERT'', ''UPDATE'', ''DELETE'']) t =
           Some (ucode ''DELETE'')"
proof -
  obtain r where "t = ucode ''DELETE'' @ r" using assms by (auto simp: prefix_def)
  then show ?thesis by (simp add: ucode_def)
qed

text \<open>
  Claim C10. A statement whose upper-cased text contains \<^verbatim>\<open>DELETE FROM\<close> is always
  rejected by \<^verbatim>\<open>database/query\<close>, before the engine and whatever the allow-list. With
  the default allow-list, if the statement begins with \<^verbatim>\<open>DELETE\<close> and contains none of
  the six patterns that \<^verbatim>\<open>database/execute\<close> looks for, the query validator rejects it
  for the pattern \<^verbatim>\<open>DELETE FROM\<close> and the statement validator accepts it.
\<close>

theorem delete_from_asymmetry:
  assumes "contains (ucode ''DELETE FROM'') (upper sql)"
  shows "(p_query qp = Some sql \<longrightarrow> (\<exists>e. execute_query upper eng now qp self = (Inl e, self))) \<and>
         (allowed_operations self = map ucode [''SELECT'', ''INSERT'', ''UPDATE'', ''DELETE''] \<and>
          prefix (ucode ''DELETE'') (py_strip (upper sql)) \<and>
          (\<forall>pattern \<in> set statement_dangerous_patterns. \<not> contains pattern (upper sql))
          \<longrightarrow> validate_query upper self sql = Inl (DangerousPattern (ucode ''DELETE FROM'')) \<and>
              validate_statement upper self sql = Inr ())"
proof (intro conjI impI)
  assume q: "p_query qp = Some sql"
  have "ucode ''DELETE FROM'' \<in> set query_dangerous_patterns"
    by (simp add: query_dangerous_patterns_def)
  then show "\<exists>e. execute_query upper eng now qp self = (Inl e, self)"
    using query_path_rejects [of qp sql self upper eng now] q assms by blast
next
  assume a: "allowed_operations self = map ucode [''SELECT'', ''INSERT'', ''UPDATE'', ''DELETE''] \<and>
          prefix (ucode ''DELETE'') (py_strip (upper sql)) \<and>
          (\<forall>pattern \<in> set statement_dangerous_patterns. \<not> contains pattern (upper sql))"
  let ?t = "py_strip (upper sql)"
  have op: "first_operation (allowed_operations self) ?t = Some (ucode ''DELETE'')"
    using a first_operation_delete by simp
  have ne: "ucode ''DELETE'' \<noteq> []" by (simp add: ucode_def)
  have none: "\<forall>pattern \<in> set statement_dangerous_patterns. \<not> contains pattern ?t"
    using a contains_strip_imp by blast
  have del: "contains (ucode ''DELETE FROM'') ?t"
    using contains_strip [of "ucode ''DELETE FROM''" "upper sql"] assms
    by (simp add: is_space_def ucode_def)
  have s: "first_pattern statement_dangerous_patterns ?t = None"
    using none first_pattern_None by blast
  have q: "first_pattern query_dangerous_patterns ?t = Some (ucode ''DELETE FROM'')"
    using none del by (simp add: query_dangerous_patterns_def statement_dangerous_patterns_def)
  show "validate_query upper self sql = Inl (DangerousPattern (ucode ''DELETE FROM''))"
    by (simp add: validate_query_def validate_sql_def op q ne)
  show "validate_statement upper self sql = Inr ()"
    by (simp add: validate_statement_def validate_sql_def op s ne)
qed

text \<open>
  The same \<^verbatim>\<open>delete from users where id = 1\<close> on both entry points of the default server:
  \<^verbatim>\<open>database/query\<close> raises and leaves the server untouched, \<^verbatim>\<open>database/execute\<close> runs
  it on the connection and commits.
\<close>

theorem delete_from_asymmetry_witness:
  "(\<exists>e. execute_query ascii_upper demo_engine ''t''
          \<lparr>p_query = Some (ucode ''delete from users where id = 1''), p_database = None,
            p_fetch_type = None, p_limit = None\<rparr> demo_db = (Inl e, demo_db)) \<and>
   validate_query ascii_upper demo_db (ucode ''delete from users where id = 1'') =
     Inl (DangerousPattern (ucode ''DELETE FROM'')) \<and>
   validate_statement ascii_upper demo_db (ucode ''delete from users where id = 1'') = Inr () \<and>
   map_of (connections (snd (execute_statement ascii_upper demo_engine ''t''
          \<lparr>p_statement = Some (ucode ''delete from users where id = 1''), p_stmt_database = None\<rparr>
          demo_db))) ''default'' =
     Some \<lparr>c_path = ''qwen_desktop.db'',
            c_executed = [ucode ''delete from users where id = 1''], c_commits = 1\<rparr>"
proof -
  let ?sql = "ucode ''delete from users where id = 1''"
  have c: "contains (ucode ''DELETE FROM'') (ascii_upper ?sql)"
    by (simp add: ascii_upper_def ucode_def)
  have e: "map_of (connections (snd (execute_statement ascii_upper demo_engine ''t''
          \<lparr>p_statement = Some ?sql, p_stmt_database = None\<rparr>
          demo_db))) ''default'' =
     Some \<lparr>c_path = ''qwen_desktop.db'', c_executed = [?sql], c_commits = 1\<rparr>"
    by (simp add: db_eval)
  have p: "prefix (ucode ''DELETE'') (py_strip (ascii_upper ?sql))"
    by (simp add: ascii_upper_def ucode_def py_strip_def is_space_def)
  have n: "\<forall>pattern \<in> set statement_dangerous_patterns.
             \<not> contains pattern (ascii_upper ?sql)"
    by (simp add: ascii_upper_def ucode_def statement_dangerous_patterns_def)
  have a: "allowed_operations demo_db = map ucode [''SELECT'', ''INSERT'', ''UPDATE'', ''DELETE'']"
    by (simp add: demo_db_def database_init_def default_operations_def)
  show ?thesis
    using delete_from_asymmetry [of ascii_upper ?sql
      "\<lparr>p_query = Some ?sql, p_database = None, p_fetch_type = None, p_limit = None\<rparr>"
      demo_engine "''t''" demo_db] c e p n a
    by simp
qed

subsection \<open>Terminal server\<close>

lemma validate_command_rejects:
  assumes "command_parts sp command = Some (base_command # args)"
    and "base_command \<notin> set (allowed_commands self) \<or>
         (\<exists>pattern \<in> set dangerous_patterns. contains pattern (join '' '' (base_command # args)))"
  shows "\<exists>e. validate_command sp self command = Inl e"
proof (cases "base_command \<in> set (allowed_commands self)")
  case False
  then show ?thesis using assms(1) by (simp add: validate_command_def)
next
  case True
  then have "first_pattern dangerous_patterns (join '' '' (base_command # args)) \<noteq> None"
    using assms(2) first_pattern_None by blast
  then show ?thesis using assms(1) True by (auto simp: validate_command_def)
qed

lemma execute_command_rejected:
  assumes "p_command params = Some command" and "validate_command sp (server w) command = Inl e"
  shows "\<exists>e'. execute_command sp run ts now params w = (Inl e', w)"
  using assms by (cases "falsy_command command") (simp_all add: execute_command_def Let_def)

text \<open>
  Claim C3. When the first token of a command is not in the allow-list, or the command
  string that the check is made on (the tokens joined by single spaces) contains one of
  the dangerous patterns, \<^verbatim>\<open>terminal/execute\<close> raises and the world is as before: no
  child was spawned, no call went to the operating system, the table of live processes
  and the command history are unchanged. This holds for every tokenizer.
\<close>

theorem rejected_command_no_effect:
  assumes "p_command params = Some command"
    and "command_parts shlex_split command = Some (base_command # args)"
    and "base_command \<notin> set (allowed_commands (server w)) \<or>
         (\<exists>pattern \<in> set dangerous_patterns. contains pattern (join '' '' (base_command # args)))"
  shows "\<exists>e. execute_command shlex_split run ts now params w = (Inl e, w)"
  using validate_command_rejects [OF assms(2,3)] execute_command_rejected [OF assms(1)]
  by blast


lemmas terminal_eval = demo_terminal_def demo_split_def terminal_init_def default_allowed_commands_def
  execute_command_def validate_command_def command_parts_def dangerous_patterns_def
  falsy_command_def new_process_id_def process_count_def register_process_def
  unregister_process_def send_signal_def add_to_history_def history_item_def py_last_def
  andthen_def Let_def kill_process_def

text \<open>
  \<^verbatim>\<open>rm -rf /\<close> fails on the allow-list and \<^verbatim>\<open>echo hi | sh\<close> on the pattern \<^verbatim>\<open>| sh\<close>.
\<close>

theorem rejected_command_no_effect_witness:
  "(\<exists>e. execute_command demo_split (Spawns (Completes 0 [] [])) ''17.5'' ''now''
           \<lparr>p_command = Some (CmdStr ''rm -rf /''), p_timeout = None, p_working_directory = None\<rparr>
           (demo_terminal None) = (Inl e, demo_terminal None)) \<and>
   (\<exists>e. execute_command demo_split (Spawns (Completes 0 [] [])) ''17.5'' ''now''
           \<lparr>p_command = Some (CmdStr ''echo hi | sh''), p_timeout = None, p_working_directory = None\<rparr>
           (demo_terminal None) = (Inl e, demo_terminal None))"
proof -
  have 1: "command_parts demo_split (CmdStr ''rm -rf /'') = Some (''rm'' # [''-rf'', ''/''])"
    by (simp add: command_parts_def demo_split_def)
  have 2: "command_parts demo_split (CmdStr ''echo hi | sh'') = Some (''echo'' # [''hi'', ''|'', ''sh''])"
    by (simp add: command_parts_def demo_split_def)
  have 3: "''rm'' \<notin> set (allowed_commands (server (demo_terminal None)))"
    by (simp add: demo_terminal_def terminal_init_def default_allowed_commands_def)
  have 4: "\<exists>pattern \<in> set dangerous_patterns. contains pattern (join '' '' (''echo'' # [''hi'', ''|'', ''sh'']))"
    by (simp add: dangerous_patterns_def)
  show ?thesis
    using rejected_command_no_effect [of
        "\<lparr>p_command = Some (CmdStr ''rm -rf /''), p_timeout = None, p_working_directory = None\<rparr>"
        "CmdStr ''rm -rf /''" demo_split "''rm''" "[''-rf'', ''/'']" "demo_terminal None"
        "Spawns (Completes 0 [] [])" "''17.5''" "''now''"]
      rejected_command_no_effect [of
        "\<lparr>p_command = Some (CmdStr ''echo hi | sh''), p_timeout = None, p_working_directory = None\<rparr>"
        "CmdStr ''echo hi | sh''" demo_split "''echo''" "[''hi'', ''|'', ''sh'']" "demo_terminal None"
        "Spawns (Completes 0 [] [])" "''17.5''" "''now''"]
      1 2 3 4
    by simp
qed

text \<open>
  Claim C4 fails on the code. With the allow-list \<^verbatim>\<open>["sleep"]\<close>, \<^verbatim>\<open>sleep 10\<close> and a
  timeout of one second, the call returns the result with \<^verbatim>\<open>timed_out\<close> set and
  \<^verbatim>\<open>success\<close> false, and the table is empty; but the only call to the operating system
  is the spawn, and the child is still live. The \<^verbatim>\<open>finally\<close> clause has removed the id
  before the handler of the timeout looks for it, so \<^verbatim>\<open>process.terminate()\<close> is never
  reached.
\<close>

theorem timeout_leaves_child_running:
  "execute_command demo_split (Spawns TimesOut) ''17.5'' ''now''
     \<lparr>p_command = Some (CmdStr ''sleep 10''), p_timeout = Some 1, p_working_directory = None\<rparr>
     (demo_terminal (Some [''sleep''])) =
   (Inr \<lparr> r_process_id = ''proc_17.5_0'', r_command = CmdStr ''sleep 10'', r_exit_code = - 1,
          r_stdout = [], r_stderr = ''Command timed out after 1 seconds'', r_success = False,
          r_executed_at = ''now'', r_working_directory = ''/srv'', r_timeout = 1,
          r_timed_out = True \<rparr>,
    \<lparr> server = terminal_init ''/srv'' None (Some [''sleep'']),
      children = [Live],
      os_calls = [Spawn 0 [''sleep'', ''10''] ''/srv''] \<rparr>)"
  by (simp add: terminal_eval)

lemma delete_update_same: "AList.delete k (AList.update k v al) = AList.delete k al"
  by (induction al) auto

lemma unregister_registered:
  "unregister_process i (register_process i h w) =
     w\<lparr>server := (server w)\<lparr>running_processes := AList.delete i (running_processes (server w))\<rparr>\<rparr>"
  by (simp add: unregister_process_def register_process_def update_conv' delete_update_same)

text \<open>What a call of \<^verbatim>\<open>execute_command\<close> that got as far as the spawn leaves behind.\<close>

lemma execute_command_spawned:
  assumes "p_command params = Some command" and "\<not> falsy_command command"
    and "validate_command sp (server w) command = Inr ()"
    and "command_parts sp command = Some cmd_parts"
  shows "\<exists>res w' c hist.
           execute_command sp (Spawns oc) ts now params w = (res, w') \<and>
           children w' = children w @ [c] \<and>
           (oc = TimesOut \<longrightarrow> c = Live) \<and>
           os_calls w' = os_calls w @
             [Spawn (length (children w)) cmd_parts
                (case p_working_directory params of None \<Rightarrow> working_directory (server w) | Some d \<Rightarrow> d)] \<and>
           running_processes (server w') =
             AList.delete (new_process_id ts (server w)) (running_processes (server w)) \<and>
           (\<forall>r. res = Inr r \<longrightarrow> r_process_id r = new_process_id ts (server w) \<and>
                 r_timed_out r = (oc = TimesOut) \<and> (oc = TimesOut \<longrightarrow> \<not> r_success r))"
proof (cases oc)
  case (Completes code out err)
  show ?thesis
    using assms
    by (simp add: execute_command_def Let_def Completes unregister_process_def register_process_def
        update_conv' delete_update_same add_to_history_def)
next
  case TimesOut
  show ?thesis
    using assms
    by (simp add: execute_command_def Let_def TimesOut unregister_process_def register_process_def
        update_conv' delete_update_same delete_conv')
next
  case CommunicateFails
  show ?thesis
    using assms
    by (simp add: execute_command_def Let_def CommunicateFails unregister_process_def register_process_def
        update_conv' delete_update_same)
qed


lemma execute_command_cases:
  assumes "execute_command sp run ts now params w = (res, w')"
  shows "(w' = w \<and> (\<exists>e. res = Inl e)) \<or>
         ((\<exists>c. children w' = children w @ [c]) \<and>
          running_processes (server w') =
            AList.delete (new_process_id ts (server w)) (running_processes (server w)) \<and>
          (\<forall>r. res = Inr r \<longrightarrow> r_process_id r = new_process_id ts (server w)))"
proof (cases "p_command params")
  case None
  then show ?thesis using assms by (auto simp: execute_command_def Let_def)
next
  case (Some command)
  show ?thesis
  proof (cases "falsy_command command")
    case True
    then show ?thesis using assms Some by (auto simp: execute_command_def Let_def)
  next
    case False
    show ?thesis
    proof (cases "validate_command sp (server w) command")
      case (Inl e)
      then show ?thesis using assms Some False by (auto simp: execute_command_def Let_def)
    next
      case (Inr u)
      show ?thesis
      proof (cases "command_parts sp command")
        case None
        then show ?thesis using assms Some False Inr by (auto simp: execute_command_def Let_def)
      next
        case parts: (Some cmd_parts)
        show ?thesis
        proof (cases run)
          case SpawnFails
          then show ?thesis using assms Some False Inr parts
            by (auto simp: execute_command_def Let_def)
        next
          case (Spawns oc)
          have v: "validate_command sp (server w) command = Inr ()" using Inr by simp
          show ?thesis
            using execute_command_spawned [OF Some False v parts, of oc ts now] assms Spawns
            by auto
        qed
      qed
    qed
  qed
qed

lemma table_ok_after_execute:
  assumes "table_ok w" and "children w' = children w @ [c]"
    and "running_processes (server w') = AList.delete i (running_processes (server w))"
  shows "table_ok w'"
proof -
  let ?t = "running_processes (server w)"
  have d1: "distinct (map fst (AList.delete i ?t))"
    using assms(1) by (simp add: table_ok_def distinct_delete)
  have d2: "distinct (map snd (AList.delete i ?t))"
    using assms(1) by (simp add: table_ok_def AList.delete_eq distinct_map_filter)
  have sub: "set (AList.delete i ?t) \<subseteq> set ?t" by (auto simp: AList.delete_eq)
  have "\<forall>(process_id, h) \<in> set ?t. h < length (children w) \<and> children w ! h = Live"
    using assms(1) by (simp add: table_ok_def list_all_iff)
  then have "\<forall>(process_id, h) \<in> set (AList.delete i ?t).
               h < length (children w') \<and> children w' ! h = Live"
    using sub assms(2) by (auto simp: nth_append)
  then show ?thesis using d1 d2 assms(3) by (simp add: table_ok_def list_all_iff)
qed

lemma table_entry_live:
  assumes "table_ok w" and "map_of (running_processes (server w)) i = Some h"
  shows "h < length (children w) \<and> children w ! h = Live"
proof -
  have "(i, h) \<in> set (running_processes (server w))" using assms(2) by (rule map_of_SomeD)
  then show ?thesis using assms(1) by (auto simp: table_ok_def list_all_iff)
qed

lemma table_ok_after_kill:
  assumes "table_ok w" and "map_of (running_processes (server w)) i = Some h"
    and "children w' = (children w)[h := c]"
    and "running_processes (server w') = AList.delete i (running_processes (server w))"
  shows "table_ok w'"
proof -
  let ?t = "running_processes (server w)"
  have d1: "distinct (map fst (AList.delete i ?t))"
    using assms(1) by (simp add: table_ok_def distinct_delete)
  have d2: "distinct (map snd (AList.delete i ?t))"
    using assms(1) by (simp add: table_ok_def AList.delete_eq distinct_map_filter)
  have mem: "(i, h) \<in> set ?t" using assms(2) by (rule map_of_SomeD)
  have inj: "distinct (map snd ?t)" using assms(1) by (simp add: table_ok_def)
  have other: "h' \<noteq> h" if "(i', h') \<in> set (AList.delete i ?t)" for i' h'
  proof -
    have "(i', h') \<in> set ?t" and "i' \<noteq> i" using that by (auto simp: AList.delete_eq)
    then show ?thesis using mem inj by (metis eq_key_imp_eq_value fst_conv snd_conv distinct_map inj_on_def)
  qed
  have all: "\<forall>(process_id, h) \<in> set ?t. h < length (children w) \<and> children w ! h = Live"
    using assms(1) by (simp add: table_ok_def list_all_iff)
  have "h' < length (children w') \<and> children w' ! h' = Live"
    if m: "(i', h') \<in> set (AList.delete i ?t)" for i' h'
  proof -
    have "(i', h') \<in> set ?t" using m by (auto simp: AList.delete_eq)
    then have "h' < length (children w) \<and> children w ! h' = Live" using all by auto
    moreover have "h' \<noteq> h" using other [OF m] .
    ultimately show ?thesis using assms(3) by simp
  qed
  then have "\<forall>(process_id, h') \<in> set (AList.delete i ?t).
               h' < length (children w') \<and> children w' ! h' = Live"
    by auto
  then show ?thesis using d1 d2 assms(4) by (simp add: table_ok_def list_all_iff)
qed

lemma kill_process_cases:
  assumes "table_ok w" and "kill_process waited now params w = (res, w')"
  shows "(w' = w \<and> (\<exists>e. res = Inl e) \<and>
            (\<forall>i. p_process_id params = Some i \<longrightarrow> i = [] \<or> map_of (running_processes (server w)) i = None)) \<or>
         (\<exists>i h c k. p_process_id params = Some i \<and>
            map_of (running_processes (server w)) i = Some h \<and>
            children w' = (children w)[h := c] \<and>
            running_processes (server w') = AList.delete i (running_processes (server w)) \<and>
            res = Inr k \<and> k_process_id k = i)"
proof (cases "p_process_id params")
  case None
  then show ?thesis using assms(2) by (auto simp: kill_process_def Let_def)
next
  case (Some i)
  show ?thesis
  proof (cases "i = []")
    case True
    then show ?thesis using assms(2) Some by (auto simp: kill_process_def Let_def)
  next
    case False
    show ?thesis
    proof (cases "map_of (running_processes (server w)) i")
      case None
      then show ?thesis using assms(2) Some False by (auto simp: kill_process_def Let_def)
    next
      case h: (Some h)
      have live: "h < length (children w) \<and> children w ! h = Live"
        using table_entry_live [OF assms(1) h] .
      show ?thesis
      proof (cases waited)
        case (ExitsWith code)
        then show ?thesis using assms(2) Some False h live
          by (auto simp: kill_process_def Let_def andthen_def send_signal_def)
      next
        case StillRunning
        then show ?thesis using assms(2) Some False h live
          by (auto simp: kill_process_def Let_def andthen_def send_signal_def)
      qed
    qed
  qed
qed

text \<open>
  Claim C7, for calls that run one after the other. In a world where every entry of the
  table of live processes is a distinct live child: after \<^verbatim>\<open>terminal/execute\<close>, however
  it ends (result, timeout or exception), and after \<^verbatim>\<open>terminal/kill\<close>, the table is
  again such a table; the process id of a returned result is absent from it, as is the
  id of any call that spawned a child, and after \<^verbatim>\<open>kill(process_id)\<close> that id is absent.
\<close>

theorem process_table_never_stale:
  assumes "table_ok w"
  shows "(execute_command shlex_split run ts now params w = (res, w') \<longrightarrow>
            table_ok w' \<and>
            (\<forall>r. res = Inr r \<longrightarrow> map_of (running_processes (server w')) (r_process_id r) = None) \<and>
            (children w' \<noteq> children w \<longrightarrow>
               map_of (running_processes (server w')) (new_process_id ts (server w)) = None)) \<and>
         (kill_process waited now kp w = (kres, w'') \<longrightarrow>
            table_ok w'' \<and>
            (\<forall>i. p_process_id kp = Some i \<longrightarrow> map_of (running_processes (server w'')) i = None \<or> i = []) \<and>
            (\<forall>k. kres = Inr k \<longrightarrow> p_process_id kp = Some (k_process_id k)))"
proof (intro conjI impI)
  assume e: "execute_command shlex_split run ts now params w = (res, w')"
  note c = execute_command_cases [OF e]
  show "table_ok w'" using c assms table_ok_after_execute by blast
  show "\<forall>r. res = Inr r \<longrightarrow> map_of (running_processes (server w')) (r_process_id r) = None"
    using c by (auto simp: delete_conv')
  show "map_of (running_processes (server w')) (new_process_id ts (server w)) = None"
    if "children w' \<noteq> children w"
    using c that by (auto simp: delete_conv')
next
  assume k: "kill_process waited now kp w = (kres, w'')"
  note c = kill_process_cases [OF assms k]
  show "table_ok w''" using c assms table_ok_after_kill by blast
  show "\<forall>i. p_process_id kp = Some i \<longrightarrow> map_of (running_processes (server w'')) i = None \<or> i = []"
    using c by (auto simp: delete_conv')
  show "\<forall>k. kres = Inr k \<longrightarrow> p_process_id kp = Some (k_process_id k)"
    using c by auto
qed

text \<open>
  With \<^verbatim>\<open>proc_1.0_0\<close> live in the table: a second command runs to its end and leaves no
  entry of its own, and \<^verbatim>\<open>kill\<close> removes the first.
\<close>

theorem process_table_never_stale_witness:
  "table_ok demo_busy \<and>
   table_ok (snd (execute_command demo_split (Spawns (Completes 0 [] [])) ''2.0'' ''now''
       \<lparr>p_command = Some (CmdStr ''sleep 1''), p_timeout = None, p_working_directory = None\<rparr>
       demo_busy)) \<and>
   map_of (running_processes (server (snd (execute_command demo_split (Spawns (Completes 0 [] []))
       ''2.0'' ''now''
       \<lparr>p_command = Some (CmdStr ''sleep 1''), p_timeout = None, p_working_directory = None\<rparr>
       demo_busy)))) ''proc_2.0_1'' = None \<and>
   table_ok (snd (kill_process (ExitsWith (- 15)) ''now''
       \<lparr>p_process_id = Some ''proc_1.0_0'', p_signal = None\<rparr> demo_busy)) \<and>
   map_of (running_processes (server (snd (kill_process (ExitsWith (- 15)) ''now''
       \<lparr>p_process_id = Some ''proc_1.0_0'', p_signal = None\<rparr> demo_busy)))) ''proc_1.0_0'' = None"
proof -
  let ?e = "execute_command demo_split (Spawns (Completes 0 [] [])) ''2.0'' ''now''
       \<lparr>p_command = Some (CmdStr ''sleep 1''), p_timeout = None, p_working_directory = None\<rparr>
       demo_busy"
  let ?k = "kill_process (ExitsWith (- 15)) ''now''
       \<lparr>p_process_id = Some ''proc_1.0_0'', p_signal = None\<rparr> demo_busy"
  have ok: "table_ok demo_busy"
    by (simp add: table_ok_def demo_busy_def terminal_init_def)
  have id: "new_process_id ''2.0'' (server demo_busy) = ''proc_2.0_1''"
    by (simp add: new_process_id_def process_count_def demo_busy_def terminal_init_def)
  have ch: "children (snd ?e) \<noteq> children demo_busy"
    by (simp add: demo_busy_def terminal_eval)
  show ?thesis
    using process_table_never_stale [of demo_busy demo_split "Spawns (Completes 0 [] [])" "''2.0''"
        "''now''" "\<lparr>p_command = Some (CmdStr ''sleep 1''), p_timeout = None, p_working_directory = None\<rparr>"
        "fst ?e" "snd ?e" "ExitsWith (- 15)"
        "\<lparr>p_process_id = Some ''proc_1.0_0'', p_signal = None\<rparr>" "fst ?k" "snd ?k"]
      ok id ch
    by simp
qed

subsection \<open>Manager\<close>

lemma merge_config_keys: "map fst (merge_config d c) = map fst d"
proof (induction c arbitrary: d)
  case Nil
  then show ?case by simp
next
  case (Cons a c)
  obtain n cfg where a: "a = (n, cfg)" by (cases a)
  show ?case
  proof (cases "map_of d n")
    case None
    then show ?thesis using Cons.IH a by simp
  next
    case (Some old)
    then have "n \<in> fst ` set d" by (force dest: map_of_SomeD)
    then have "map fst (AList.update n (dict_update old cfg) d) = map fst d"
      by (simp add: update_keys)
    then show ?thesis using Cons.IH [of "AList.update n (dict_update old cfg) d"] a Some by simp
  qed
qed

lemma initialize_server_ok:
  assumes "server_class_of n = Some cls" and "boot n c = None"
  shows "initialize_server boot n c m =
           (Inr (), m\<lparr>servers := AList.update n \<lparr>so_class = cls, so_config = c\<rparr> (servers m)\<rparr>)"
  using assms by (simp add: initialize_server_def)

lemma initialize_server_fails:
  assumes "server_class_of n = Some cls" and "boot n c = Some x"
  shows "initialize_server boot n c m = (Inl (ServerRaised x), m)"
  using assms by (simp add: initialize_server_def)

lemma initialize_servers_abort:
  assumes "distinct (map fst (pre @ (name, cfg) # post))"
    and "\<forall>n \<in> fst ` set (pre @ [(name, cfg)]). server_class_of n \<noteq> None"
    and "config_enabled cfg" and "boot name cfg = Some x"
    and "\<forall>(n, c) \<in> set pre. config_enabled c \<longrightarrow> boot n c = None"
  shows "\<exists>m'. initialize_servers boot (pre @ (name, cfg) # post) m = (Inl (ServerRaised x), m') \<and>
           is_initialized m' = is_initialized m \<and>
           (\<forall>n. n \<notin> fst ` set pre \<longrightarrow> map_of (servers m') n = map_of (servers m) n) \<and>
           (\<forall>(n, c) \<in> set pre. config_enabled c \<longrightarrow>
              (\<exists>cls. map_of (servers m') n = Some \<lparr>so_class = cls, so_config = c\<rparr>))"
  using assms
proof (induction pre arbitrary: m)
  case Nil
  obtain cls where "server_class_of name = Some cls" using Nil.prems(2) by auto
  then show ?case using Nil.prems initialize_server_fails [of name cls boot cfg x m] by simp
next
  case (Cons a pre)
  obtain n c where a: "a = (n, c)" by (cases a)
  have d: "distinct (map fst (pre @ (name, cfg) # post))" using Cons.prems(1) by simp
  have k: "\<forall>n \<in> fst ` set (pre @ [(name, cfg)]). server_class_of n \<noteq> None"
    using Cons.prems(2) by simp
  have b: "\<forall>(n, c) \<in> set pre. config_enabled c \<longrightarrow> boot n c = None"
    using Cons.prems(5) by simp
  have fresh: "n \<notin> fst ` set pre" using Cons.prems(1) a by auto
  show ?case
  proof (cases "config_enabled c")
    case False
    obtain m' where m': "initialize_servers boot (pre @ (name, cfg) # post) m = (Inl (ServerRaised x), m')"
      "is_initialized m' = is_initialized m"
      "\<forall>n. n \<notin> fst ` set pre \<longrightarrow> map_of (servers m') n = map_of (servers m) n"
      "\<forall>(n, c) \<in> set pre. config_enabled c \<longrightarrow>
              (\<exists>cls. map_of (servers m') n = Some \<lparr>so_class = cls, so_config = c\<rparr>)"
      using Cons.IH [OF d k Cons.prems(3,4) b, of m] by blast
    show ?thesis using m' False a by auto
  next
    case True
    obtain cls where cls: "server_class_of n = Some cls" using Cons.prems(2) a by auto
    have ok: "boot n c = None" using Cons.prems(5) a True by simp
    let ?m1 = "m\<lparr>servers := AList.update n \<lparr>so_class = cls, so_config = c\<rparr> (servers m)\<rparr>"
    obtain m' where m': "initialize_servers boot (pre @ (name, cfg) # post) ?m1 = (Inl (ServerRaised x), m')"
      "is_initialized m' = is_initialized ?m1"
      "\<forall>n. n \<notin> fst ` set pre \<longrightarrow> map_of (servers m') n = map_of (servers ?m1) n"
      "\<forall>(n, c) \<in> set pre. config_enabled c \<longrightarrow>
              (\<exists>cls. map_of (servers m') n = Some \<lparr>so_class = cls, so_config = c\<rparr>)"
      using Cons.IH [OF d k Cons.prems(3,4) b, of ?m1] by blast
    have run: "initialize_servers boot ((a # pre) @ (name, cfg) # post) m = (Inl (ServerRaised x), m')"
      using m'(1) a True initialize_server_ok [of n cls boot c m] cls ok by simp
    have here: "map_of (servers m') n = Some \<lparr>so_class = cls, so_config = c\<rparr>"
      using m'(3) fresh by (simp add: update_conv')
    have rest: "\<forall>k. k \<notin> fst ` set (a # pre) \<longrightarrow> map_of (servers m') k = map_of (servers m) k"
      using m'(3) a by (auto simp: update_conv')
    show ?thesis using run m'(2) m'(4) here rest a by auto
  qed
qed

lemma default_names: "map fst default_config = [''filesystem'', ''web_search'', ''terminal'', ''database'']"
  by (simp add: default_config_def)

lemma merged_names:
  "map fst (case config of None \<Rightarrow> default_config | Some c \<Rightarrow> merge_config default_config c) =
     [''filesystem'', ''web_search'', ''terminal'', ''database'']"
  by (cases config) (simp_all add: merge_config_keys default_names)

text \<open>
  Claim C5, amended. In \<^verbatim>\<open>Manager.initialize\<close> the first enabled server whose
  construction or \<^verbatim>\<open>initialize()\<close> raises ends the initialization: the exception is
  raised again to the caller, the failed server and the servers after it in the order
  of the configuration are left as they were (not registered), the enabled servers
  before it are registered, no error status is recorded anywhere, and
  \<^verbatim>\<open>is_initialized\<close> stays false, so that \<^verbatim>\<open>handle_request\<close> refuses every method.
\<close>

theorem initialize_aborts_at_first_failure:
  assumes "(case config of None \<Rightarrow> default_config | Some c \<Rightarrow> merge_config default_config c) =
             pre @ (name, cfg) # post"
    and "config_enabled cfg" and "boot name cfg = Some x"
    and "\<forall>(n, c) \<in> set pre. config_enabled c \<longrightarrow> boot n c = None"
    and "\<not> is_initialized m"
  shows "\<exists>m'. initialize boot config m = (Inl (ServerRaised x), m') \<and>
           \<not> is_initialized m' \<and>
           map_of (servers m') name = map_of (servers m) name \<and>
           (\<forall>(n, c) \<in> set post. map_of (servers m') n = map_of (servers m) n) \<and>
           (\<forall>(n, c) \<in> set pre. config_enabled c \<longrightarrow>
              (\<exists>cls. map_of (servers m') n = Some \<lparr>so_class = cls, so_config = c\<rparr>)) \<and>
           (\<forall>method params. handle_request handler method params m' = Inl NotInitialized)"
proof -
  let ?merged = "case config of None \<Rightarrow> default_config | Some c \<Rightarrow> merge_config default_config c"
  let ?m1 = "m\<lparr>server_configs := ?merged\<rparr>"
  have names: "map fst (pre @ (name, cfg) # post) = [''filesystem'', ''web_search'', ''terminal'', ''database'']"
    using merged_names [of config] assms(1) by simp
  then have d: "distinct (map fst (pre @ (name, cfg) # post))" by simp
  have sub: "fst ` set (pre @ [(name, cfg)]) \<subseteq> set (map fst (pre @ (name, cfg) # post))"
    by auto
  have known: "\<forall>n \<in> set [''filesystem'', ''web_search'', ''terminal'', ''database''].
                 server_class_of n \<noteq> None"
    by (simp add: server_class_of_def)
  have k: "\<forall>n \<in> fst ` set (pre @ [(name, cfg)]). server_class_of n \<noteq> None"
    using sub known unfolding names by blast
  obtain m' where m': "initialize_servers boot (pre @ (name, cfg) # post) ?m1 = (Inl (ServerRaised x), m')"
      "is_initialized m' = is_initialized ?m1"
      "\<forall>n. n \<notin> fst ` set pre \<longrightarrow> map_of (servers m') n = map_of (servers ?m1) n"
      "\<forall>(n, c) \<in> set pre. config_enabled c \<longrightarrow>
              (\<exists>cls. map_of (servers m') n = Some \<lparr>so_class = cls, so_config = c\<rparr>)"
    using initialize_servers_abort [OF d k assms(2,3,4), of ?m1] by blast
  have run: "initialize boot config m = (Inl (ServerRaised x), m')"
    using m'(1) assms(1) by (simp add: initialize_def Let_def)
  have off: "\<not> is_initialized m'" using m'(2) assms(5) by simp
  have nm: "name \<notin> fst ` set pre" using d by auto
  have "fst ` set pre \<inter> fst ` set post = {}" using d by auto
  then have ps: "\<forall>(n, c) \<in> set post. n \<notin> fst ` set pre" by force
  have a: "map_of (servers m') name = map_of (servers m) name" using m'(3) nm by simp
  have b: "\<forall>(n, c) \<in> set post. map_of (servers m') n = map_of (servers m) n"
    using m'(3) ps by auto
  have c: "\<forall>method params. handle_request handler method params m' = Inl NotInitialized"
    using off by (simp add: handle_request_def)
  show ?thesis
  proof (intro exI conjI)
    show "initialize boot config m = (Inl (ServerRaised x), m')" by (rule run)
    show "\<not> is_initialized m'" by (rule off)
    show "map_of (servers m') name = map_of (servers m) name" by (rule a)
    show "\<forall>(n, c) \<in> set post. map_of (servers m') n = map_of (servers m) n" by (rule b)
    show "\<forall>(n, c) \<in> set pre. config_enabled c \<longrightarrow>
              (\<exists>cls. map_of (servers m') n = Some \<lparr>so_class = cls, so_config = c\<rparr>)"
      by (rule m'(4))
    show "\<forall>method params. handle_request handler method params m' = Inl NotInitialized"
      by (rule c)
  qed
qed

text \<open>
  Claim C5, as it is written, fails. With the default configuration and a terminal
  server that cannot start, \<^verbatim>\<open>initialize\<close> raises; the database server, enabled, next
  in the configuration and able to start, is never initialized or registered, the
  failed server is not recorded at all, and the manager is not initialized.
\<close>

theorem partial_failure_counterexample:
  "fst (initialize terminal_fails None manager_init) = Inl (ServerRaised ''PermissionError'') \<and>
   map_of default_config ''database'' =
     Some [(''enabled'', CBool True), (''database_path'', CStr ''qwen_desktop.db''),
           (''allowed_operations'', CList [''SELECT'', ''INSERT'', ''UPDATE'', ''DELETE''])] \<and>
   terminal_fails ''database'' [] = None \<and>
   map_of (servers (snd (initialize terminal_fails None manager_init))) ''database'' = None \<and>
   map_of (servers (snd (initialize terminal_fails None manager_init))) ''terminal'' = None \<and>
   \<not> is_initialized (snd (initialize terminal_fails None manager_init))"
proof -
  have 1: "fst (initialize terminal_fails None manager_init) = Inl (ServerRaised ''PermissionError'')"
    by code_simp
  have 2: "map_of default_config ''database'' =
     Some [(''enabled'', CBool True), (''database_path'', CStr ''qwen_desktop.db''),
           (''allowed_operations'', CList [''SELECT'', ''INSERT'', ''UPDATE'', ''DELETE''])]"
    by (simp add: default_config_def)
  have 3: "terminal_fails ''database'' [] = None" by (simp add: terminal_fails_def)
  have 4: "map_of (servers (snd (initialize terminal_fails None manager_init))) ''database'' = None"
    by code_simp
  have 5: "map_of (servers (snd (initialize terminal_fails None manager_init))) ''terminal'' = None"
    by code_simp
  have 6: "\<not> is_initialized (snd (initialize terminal_fails None manager_init))"
    by code_simp
  show ?thesis using 1 2 3 4 5 6 by blast
qed

text \<open>
  The amended claim in the same situation: \<^verbatim>\<open>filesystem\<close> is registered, \<^verbatim>\<open>terminal\<close>
  and \<^verbatim>\<open>database\<close> are not, and the router answers \<^verbatim>\<open>filesystem/read\<close> with
  \<^verbatim>\<open>RuntimeError("MCP server manager not initialized")\<close>.
\<close>

theorem initialize_aborts_at_first_failure_witness:
  "\<exists>m'. initialize terminal_fails None manager_init = (Inl (ServerRaised ''PermissionError''), m') \<and>
         \<not> is_initialized m' \<and>
         map_of (servers m') ''terminal'' = None \<and>
         map_of (servers m') ''database'' = None \<and>
         (\<exists>cls. map_of (servers m') ''filesystem'' =
            Some \<lparr>so_class = cls, so_config =
              [(''enabled'', CBool True), (''root_path'', CNone), (''max_file_size'', CInt (10 * 1024 * 1024))]\<rparr>) \<and>
         handle_request answering_handler ''filesystem/read'' () m' = Inl NotInitialized"
proof -
  let ?pre = "[(''filesystem'',
         [(''enabled'', CBool True), (''root_path'', CNone), (''max_file_size'', CInt (10 * 1024 * 1024))]),
      (''web_search'',
         [(''enabled'', CBool True), (''api_key'', CNone), (''max_results'', CInt 10), (''timeout'', CInt 30)])]"
  let ?cfg = "[(''enabled'', CBool True), (''working_directory'', CNone),
          (''allowed_commands'', CList default_allowed_commands)]"
  let ?post = "[(''database'',
         [(''enabled'', CBool True), (''database_path'', CStr ''qwen_desktop.db''),
          (''allowed_operations'', CList [''SELECT'', ''INSERT'', ''UPDATE'', ''DELETE''])])]"
  have 1: "(case None of None \<Rightarrow> default_config | Some c \<Rightarrow> merge_config default_config c) =
             ?pre @ (''terminal'', ?cfg) # ?post"
    by (simp add: default_config_def)
  have 2: "config_enabled ?cfg" by (simp add: config_enabled_def truthy_def)
  have 3: "terminal_fails ''terminal'' ?cfg = Some ''PermissionError''"
    by (simp add: terminal_fails_def)
  have 4: "\<forall>(n, c) \<in> set ?pre. config_enabled c \<longrightarrow> terminal_fails n c = None"
    by (simp add: terminal_fails_def)
  have 5: "\<not> is_initialized manager_init" by (simp add: manager_init_def)
  have 6: "servers manager_init = []" by (simp add: manager_init_def)
  show ?thesis
    using initialize_aborts_at_first_failure [OF 1 2 3 4 5, of answering_handler] 2 6
    by (auto simp: config_enabled_def truthy_def)
qed


lemma prefix_slash_iff:
  assumes "CHR ''/'' \<notin> set p"
  shows "prefix (p @ ''/'') m \<longleftrightarrow> prefix_before_slash m = Some p"
proof
  assume "prefix (p @ ''/'') m"
  then obtain r where m: "m = p @ CHR ''/'' # r" by (auto simp: prefix_def)
  have "takeWhile (\<lambda>c. c \<noteq> CHR ''/'') (p @ CHR ''/'' # r) = p"
    using assms by (induction p) auto
  then have "takeWhile (\<lambda>c. c \<noteq> CHR ''/'') m = p" by (simp add: m)
  then show "prefix_before_slash m = Some p" by (simp add: prefix_before_slash_def m)
next
  assume a: "prefix_before_slash m = Some p"
  then have slash: "CHR ''/'' \<in> set m" and tw: "takeWhile (\<lambda>c. c \<noteq> CHR ''/'') m = p"
    by (auto simp: prefix_before_slash_def split: if_splits)
  let ?d = "dropWhile (\<lambda>c. c \<noteq> CHR ''/'') m"
  have ne: "?d \<noteq> []" using slash by auto
  then have "hd ?d = CHR ''/''" using hd_dropWhile [of "\<lambda>c. c \<noteq> CHR ''/''" m] by simp
  then obtain r where d: "?d = CHR ''/'' # r" using ne by (cases ?d) auto
  have "m = takeWhile (\<lambda>c. c \<noteq> CHR ''/'') m @ ?d" by simp
  then have "m = (p @ ''/'') @ r" using tw d by simp
  then show "prefix (p @ ''/'') m" by (metis prefixI)
qed

lemma extract_by_table:
  "extract_server_type method =
     (case prefix_before_slash method of
        None \<Rightarrow> Inl (UnknownMethodPrefix method)
      | Some p \<Rightarrow>
          (case map_of routing_table p of
             None \<Rightarrow> Inl (UnknownMethodPrefix method)
           | Some server_type \<Rightarrow> Inr server_type))"
proof -
  have f: "prefix ''filesystem/'' method \<longleftrightarrow> prefix_before_slash method = Some ''filesystem''"
    using prefix_slash_iff [of "''filesystem''" "method"] by simp
  have w: "prefix ''web/'' method \<longleftrightarrow> prefix_before_slash method = Some ''web''"
    using prefix_slash_iff [of "''web''" "method"] by simp
  have t: "prefix ''terminal/'' method \<longleftrightarrow> prefix_before_slash method = Some ''terminal''"
    using prefix_slash_iff [of "''terminal''" "method"] by simp
  have d: "prefix ''database/'' method \<longleftrightarrow> prefix_before_slash method = Some ''database''"
    using prefix_slash_iff [of "''database''" "method"] by simp
  show ?thesis
  proof (cases "prefix_before_slash method")
    case None
    then show ?thesis by (simp add: extract_server_type_def f w t d)
  next
    case (Some p)
    then show ?thesis
      by (simp add: extract_server_type_def f w t d routing_table_def)
  qed
qed

text \<open>
  Claim C6, amended. For every method string and parameters, an initialized manager
  finds the target by the part of the method before its first \<^verbatim>\<open>/\<close>, through a fixed
  table (\<^verbatim>\<open>filesystem\<close>, \<^verbatim>\<open>terminal\<close> and \<^verbatim>\<open>database\<close> to the servers of these names,
  \<^verbatim>\<open>web\<close> to \<^verbatim>\<open>web_search\<close>). A method without \<^verbatim>\<open>/\<close> or with another prefix raises
  \<^verbatim>\<open>ValueError("Unknown method prefix")\<close>, a server that is not registered raises
  \<^verbatim>\<open>ValueError("Server not available")\<close>, a result of the target's handler is returned
  as it is, and an exception of the handler is raised again to the caller: nothing is
  turned into an error value.
\<close>

theorem handle_request_routes_and_reraises:
  assumes "is_initialized m"
  shows "handle_request handler method params m =
           (case prefix_before_slash method of
              None \<Rightarrow> Inl (UnknownMethodPrefix method)
            | Some p \<Rightarrow>
                (case map_of routing_table p of
                   None \<Rightarrow> Inl (UnknownMethodPrefix method)
                 | Some server_type \<Rightarrow>
                     (case map_of (servers m) server_type of
                        None \<Rightarrow> Inl (ServerNotAvailable server_type)
                      | Some target \<Rightarrow>
                          (case handler target method params of
                             Inl x \<Rightarrow> Inl (ServerRaised x)
                           | Inr v \<Rightarrow> Inr v))))"
  using assms
  by (simp add: handle_request_def extract_by_table split: option.splits)

lemma demo_manager_ready: "is_initialized demo_manager"
  by code_simp

text \<open>
  Claim C6, as it is written, fails. On the initialized default manager a handler that
  raises \<^verbatim>\<open>KeyError\<close> makes \<^verbatim>\<open>handle_request\<close> raise it (\<open>Inl\<close>), and an unknown
  prefix makes it raise \<^verbatim>\<open>ValueError\<close>: in neither case does the call return a value,
  structured error or other.
\<close>

theorem handler_exception_counterexample:
  "is_initialized demo_manager \<and>
   handle_request raising_handler ''terminal/execute'' () demo_manager =
     Inl (ServerRaised ''KeyError'') \<and>
   handle_request answering_handler ''bogus/execute'' () demo_manager =
     Inl (UnknownMethodPrefix ''bogus/execute'')"
proof -
  have 1: "handle_request raising_handler ''terminal/execute'' () demo_manager =
     Inl (ServerRaised ''KeyError'')"
    by code_simp
  have 2: "handle_request answering_handler ''bogus/execute'' () demo_manager =
     Inl (UnknownMethodPrefix ''bogus/execute'')"
    by code_simp
  show ?thesis using demo_manager_ready 1 2 by blast
qed

text \<open>
  The amended claim on the default manager: \<^verbatim>\<open>web/search\<close> goes to the server
  registered as \<^verbatim>\<open>web_search\<close>, while \<^verbatim>\<open>web_search/search\<close> has no known prefix.
\<close>

theorem handle_request_routes_and_reraises_witness:
  "handle_request raising_handler ''web/search'' () demo_manager = Inl (ServerRaised ''KeyError'') \<and>
   handle_request answering_handler ''web/search'' () demo_manager = Inr ''ok'' \<and>
   handle_request answering_handler ''web_search/search'' () demo_manager =
     Inl (UnknownMethodPrefix ''web_search/search'')"
proof -
  have s: "map_of (servers demo_manager) ''web_search'' \<noteq> None"
    by code_simp
  have p1: "prefix_before_slash ''web/search'' = Some ''web''"
    by (simp add: prefix_before_slash_def)
  have p2: "prefix_before_slash ''web_search/search'' = Some ''web_search''"
    by (simp add: prefix_before_slash_def)
  show ?thesis
    using handle_request_routes_and_reraises [OF demo_manager_ready, of raising_handler "''web/search''" "()"]
      handle_request_routes_and_reraises [OF demo_manager_ready, of answering_handler "''web/search''" "()"]
      handle_request_routes_and_reraises [OF demo_manager_ready, of answering_handler "''web_search/search''" "()"]
      s p1 p2
    by (auto simp: routing_table_def raising_handler_def answering_handler_def)
qed

subsection \<open>Filesystem server: containment\<close>
















end
